theory Spec2Isabelle
  imports Complex_Main "HOL-Library.Log_Nat"
begin

section \<open>Outcomes of a call\<close>

text \<open>
  A Go call in this package ends in one of three ways: it returns a value, it panics
  (\<open>Errorf\<close> panics with a \<open>value.Error\<close>, \<open>math/big\<close> panics with an \<open>ErrNaN\<close>),
  or it never returns because one of its \<open>for\<close> loops runs forever. The three are
  \<open>Some (Inr v)\<close>, \<open>Some (Inl e)\<close> and \<open>None\<close>.
\<close>

datatype error = Error string | ErrNaN string

type_synonym 'a result = "(error + 'a) option"

definition ret :: "'a \<Rightarrow> 'a result" where
  "ret v = Some (Inr v)"

definition raise :: "error \<Rightarrow> 'a result" where
  "raise e = Some (Inl e)"

definition rbind :: "'a result \<Rightarrow> ('a \<Rightarrow> 'b result) \<Rightarrow> 'b result" where
  "rbind m f = Option.bind m (\<lambda>r. case r of Inl e \<Rightarrow> Some (Inl e) | Inr v \<Rightarrow> f v)"

text \<open>
  Modelled from the spec: \<open>Errorf\<close> is not among the sources; the spec has it fail the
  evaluation with a domain error carrying the message.
\<close>

definition Errorf :: "string \<Rightarrow> 'a result" where
  "Errorf msg = raise (Error msg)"

section \<open>Arbitrary-precision floats\<close>

text \<open>
  The value of a \<open>*big.Float\<close> is a binary fraction or an infinity. Finite values are
  rationals here; \<open>Infinite True\<close> is \<open>-Inf\<close>. The two zeros of \<open>math/big\<close> are one
  value: the functions below read a zero through \<open>Sign\<close> and \<open>Cmp\<close> only, and the one
  zero they divide by is the fresh \<open>+0\<close> that \<open>floatSqrt\<close> returns. The exponent range
  (32 bits) is taken as unbounded.
\<close>

datatype bigfloat = Finite rat | Infinite bool

fun Sign :: "bigfloat \<Rightarrow> int" where
  "Sign (Finite x) = (if x < 0 then -1 else if x = 0 then 0 else 1)"
| "Sign (Infinite neg) = (if neg then -1 else 1)"

fun Cmp :: "bigfloat \<Rightarrow> bigfloat \<Rightarrow> int" where
  "Cmp (Finite x) (Finite y) = (if x < y then -1 else if x = y then 0 else 1)"
| "Cmp (Finite x) (Infinite neg) = (if neg then 1 else -1)"
| "Cmp (Infinite neg) (Finite y) = (if neg then -1 else 1)"
| "Cmp (Infinite a) (Infinite b) = (if a = b then 0 else if a then -1 else 1)"

fun fNeg :: "bigfloat \<Rightarrow> bigfloat" where
  "fNeg (Finite x) = Finite (- x)"
| "fNeg (Infinite neg) = Infinite (\<not> neg)"

fun fAbs :: "bigfloat \<Rightarrow> bigfloat" where
  "fAbs (Finite x) = Finite \<bar>x\<bar>"
| "fAbs (Infinite neg) = Infinite False"

text \<open>
  Every \<open>big.Float\<close> has a precision, the number of its mantissa bits, and a method
  \<open>z.Op(x, y)\<close> rounds the exact result to the precision of its receiver \<open>z\<close>. The
  context has the rounding to a given precision (\<open>rounding\<close>) and the working precision
  (\<open>FloatPrec\<close>, the \<open>conf.FloatPrec()\<close> that \<open>newF\<close> gives every float it makes).
  \<open>rnd\<close> is the rounding to the working precision, and \<open>at_prec c p\<close> is the context of
  an operation whose receiver has the precision \<open>p\<close>. Zero needs no mantissa bits, so it
  is never rounded. The small constants set by \<open>SetInt64\<close> and \<open>SetFloat64\<close> are taken
  as exact.

  In the functions below every receiver but one is a float made by \<open>newF\<close>, so its
  precision is the working precision whatever the precision of the argument \<open>x\<close> is. The
  exception is the iterate \<open>z\<close> of \<open>floatSqrt\<close>, which \<open>x.MantExp(z)\<close> gives the
  precision of \<open>x\<close>. So the functions take the value of their argument, which may have
  more bits than the working precision allows, and \<open>floatSqrt\<close> takes the precision of
  its argument as well.

  The loop controller (\<open>newLoop\<close>, \<open>terminate\<close>) and the constant \<open>floatPi\<close> are not
  among the sources either; they are the remaining fields of the context. The controller
  is any state machine: \<open>terminate\<close> may say stop, say go on, or panic.
\<close>

record 'l ctx =
  rounding :: "nat \<Rightarrow> rat \<Rightarrow> rat"
  FloatPrec :: nat
  floatPi :: rat
  newLoop :: "string \<Rightarrow> bigfloat \<Rightarrow> nat \<Rightarrow> 'l"
  terminate :: "'l \<Rightarrow> bigfloat \<Rightarrow> (bool \<times> 'l) result"

definition rnd :: "'l ctx \<Rightarrow> rat \<Rightarrow> rat" where
  "rnd c = rounding c (FloatPrec c)"

definition at_prec :: "'l ctx \<Rightarrow> nat \<Rightarrow> 'l ctx" where
  "at_prec c p = c\<lparr>FloatPrec := p\<rparr>"

definition round_to :: "'l ctx \<Rightarrow> rat \<Rightarrow> bigfloat" where
  "round_to c t = (if t = 0 then Finite 0 else Finite (rnd c t))"

text \<open>
  \<open>newF().Set(x)\<close>: the copy has the working precision, so the value of \<open>x\<close> is rounded
  to it. A value that has the working precision already is its own rounding.
\<close>

fun fSet :: "'l ctx \<Rightarrow> bigfloat \<Rightarrow> bigfloat" where
  "fSet c (Finite t) = round_to c t"
| "fSet c (Infinite neg) = Infinite neg"

fun fAdd :: "'l ctx \<Rightarrow> bigfloat \<Rightarrow> bigfloat \<Rightarrow> bigfloat result" where
  "fAdd c (Finite x) (Finite y) = ret (round_to c (x + y))"
| "fAdd c (Finite x) (Infinite b) = ret (Infinite b)"
| "fAdd c (Infinite a) (Finite y) = ret (Infinite a)"
| "fAdd c (Infinite a) (Infinite b) =
     (if a \<noteq> b then raise (ErrNaN ''addition of infinities with opposite signs'')
      else ret (Infinite a))"

fun fSub :: "'l ctx \<Rightarrow> bigfloat \<Rightarrow> bigfloat \<Rightarrow> bigfloat result" where
  "fSub c (Finite x) (Finite y) = ret (round_to c (x - y))"
| "fSub c (Finite x) (Infinite b) = ret (Infinite (\<not> b))"
| "fSub c (Infinite a) (Finite y) = ret (Infinite a)"
| "fSub c (Infinite a) (Infinite b) =
     (if a = b then raise (ErrNaN ''subtraction of infinities with equal signs'')
      else ret (Infinite a))"

fun fMul :: "'l ctx \<Rightarrow> bigfloat \<Rightarrow> bigfloat \<Rightarrow> bigfloat result" where
  "fMul c (Finite x) (Finite y) = ret (round_to c (x * y))"
| "fMul c (Finite x) (Infinite b) =
     (if x = 0 then raise (ErrNaN ''multiplication of zero with infinity'')
      else ret (Infinite ((x < 0) \<noteq> b)))"
| "fMul c (Infinite a) (Finite y) =
     (if y = 0 then raise (ErrNaN ''multiplication of zero with infinity'')
      else ret (Infinite (a \<noteq> (y < 0))))"
| "fMul c (Infinite a) (Infinite b) = ret (Infinite (a \<noteq> b))"

fun fQuo :: "'l ctx \<Rightarrow> bigfloat \<Rightarrow> bigfloat \<Rightarrow> bigfloat result" where
  "fQuo c (Finite x) (Finite y) =
     (if y = 0 then
        (if x = 0 then raise (ErrNaN ''division of zero by zero or infinity by infinity'')
         else ret (Infinite (x < 0)))
      else ret (round_to c (x / y)))"
| "fQuo c (Finite x) (Infinite b) = ret (Finite 0)"
| "fQuo c (Infinite a) (Finite y) = ret (Infinite (a \<noteq> (y < 0)))"
| "fQuo c (Infinite a) (Infinite b) =
     raise (ErrNaN ''division of zero by zero or infinity by infinity'')"

subsection \<open>Mantissa and exponent\<close>

text \<open>
  The exponent \<open>e\<close> of a non-zero \<open>x\<close> has \<open>1/2 \<le> |x| / 2^e < 1\<close>. It is read off
  the bit length of \<open>\<lfloor>|x|\<rfloor>\<close> when \<open>|x| \<ge> 1\<close> and of \<open>\<lceil>1/|x|\<rceil> - 1\<close> otherwise.
\<close>

definition exponent :: "rat \<Rightarrow> int" where
  "exponent x =
     (if x = 0 then 0
      else if 1 \<le> \<bar>x\<bar> then bitlen \<lfloor>\<bar>x\<bar>\<rfloor>
      else 1 - bitlen (\<lceil>1 / \<bar>x\<bar>\<rceil> - 1))"

fun MantExp :: "bigfloat \<Rightarrow> bigfloat \<times> int" where
  "MantExp (Finite x) = (Finite (x / 2 powi exponent x), exponent x)"
| "MantExp (Infinite neg) = (Infinite neg, 0)"

fun SetMantExp :: "bigfloat \<Rightarrow> int \<Rightarrow> bigfloat" where
  "SetMantExp (Finite m) e = Finite (m * 2 powi e)"
| "SetMantExp (Infinite neg) e = Infinite neg"

text \<open>Go's \<open>/\<close> on \<open>int\<close> truncates towards zero; HOL's \<open>div\<close> rounds down.\<close>

definition go_quo :: "int \<Rightarrow> int \<Rightarrow> int" where
  "go_quo a b = sgn a * sgn b * (\<bar>a\<bar> div \<bar>b\<bar>)"

subsection \<open>Constants of the package\<close>

text \<open>
  Modelled from the spec: \<open>newF\<close>, \<open>floatOne\<close>, \<open>floatTwo\<close> and \<open>floatMinusOne\<close>
  are not among the sources; the spec has them be zero, one, two and minus one at the
  working precision. They and \<open>floatPi\<close> are floats of the working precision, so that
  \<open>newF().Set\<close> copies them as they are and \<open>floatSqrt(floatTwo)\<close> iterates at the
  working precision.
\<close>

definition newF :: bigfloat where
  "newF = Finite 0"

definition floatOne :: bigfloat where
  "floatOne = Finite 1"

definition floatTwo :: bigfloat where
  "floatTwo = Finite 2"

definition floatMinusOne :: bigfloat where
  "floatMinusOne = Finite (- 1)"

lemma rbind_mono [partial_function_mono]:
  assumes mf: "mono_option B" and mg: "\<And>y. mono_option (\<lambda>f. C y f)"
  shows "mono_option (\<lambda>f. rbind (B f) (\<lambda>y. C y f))"
  unfolding rbind_def
proof (rule bind_mono [OF mf])
  fix r
  show "mono_option (\<lambda>f. case r of Inl e \<Rightarrow> Some (Inl e) | Inr v \<Rightarrow> C v f)"
    by (cases r) (simp_all add: option.const_mono mg)
qed

section \<open>Square root\<close>

text \<open>
  \<open>xprec\<close> is the precision of \<open>x\<close>. \<open>x.MantExp(z)\<close> makes \<open>z\<close> a copy of \<open>x\<close> with
  the exponent 0, precision included, so \<open>z.Sub(z, num)\<close> rounds to \<open>xprec\<close>; the other
  receivers of the loop are floats of the working precision.
\<close>

partial_function (option) floatSqrt_loop ::
  "'l ctx \<Rightarrow> nat \<Rightarrow> bigfloat \<Rightarrow> 'l \<Rightarrow> bigfloat \<Rightarrow> bigfloat result" where [code]:
  "floatSqrt_loop c xprec x loop z =
     rbind (fMul c z z) (\<lambda>zSquared.
     rbind (fSub c zSquared x) (\<lambda>num.
     rbind (fMul c floatTwo z) (\<lambda>den.
     rbind (fQuo c num den) (\<lambda>num.
     rbind (fSub (at_prec c xprec) z num) (\<lambda>z.
     rbind (terminate c loop z) (\<lambda>(stop, loop).
       if stop then ret z else floatSqrt_loop c xprec x loop z))))))"

definition floatSqrt :: "'l ctx \<Rightarrow> nat \<Rightarrow> bigfloat \<Rightarrow> bigfloat result" where
  "floatSqrt c xprec x =
     (if Sign x = -1 then Errorf ''square root of negative number''
      else if Sign x = 0 then ret newF
      else
        let (z, exp) = MantExp x;
            z = SetMantExp z (go_quo exp 2);
            loop = newLoop c ''sqrt'' x 1
        in floatSqrt_loop c xprec x loop z)"

section \<open>Arctangent\<close>

text \<open>The series for \<open>|x| < 1\<close>: \<open>x - x\<^sup>3/3 + x\<^sup>5/5 - ...\<close>, one term per iteration.\<close>

partial_function (option) floatAtan_loop ::
  "'l ctx \<Rightarrow> bigfloat \<Rightarrow> bigfloat \<Rightarrow> 'l \<Rightarrow> bigfloat \<Rightarrow> bigfloat \<Rightarrow> bigfloat \<Rightarrow> bool
   \<Rightarrow> bigfloat result" where [code]:
  "floatAtan_loop c two xSquared loop n xN z is_plus =
     rbind (fQuo c xN n) (\<lambda>term.
     rbind (if is_plus then fAdd c z term else fSub c z term) (\<lambda>z.
     let is_plus = \<not> is_plus in
     rbind (terminate c loop z) (\<lambda>(stop, loop).
       if stop then ret z
       else
         rbind (fAdd c n two) (\<lambda>n.
         rbind (fMul c xN xSquared) (\<lambda>xN.
         floatAtan_loop c two xSquared loop n xN z is_plus)))))"

text \<open>The series for \<open>x > 1\<close>: \<open>\<pi>/2 - 1/x + 1/3x\<^sup>3 - 1/5x\<^sup>5 + ...\<close>.\<close>

partial_function (option) floatAtanLarge_loop ::
  "'l ctx \<Rightarrow> bigfloat \<Rightarrow> 'l \<Rightarrow> bigfloat \<Rightarrow> bigfloat \<Rightarrow> bigfloat \<Rightarrow> bool
   \<Rightarrow> bigfloat result" where [code]:
  "floatAtanLarge_loop c xSquared loop n xN z is_plus =
     rbind (fMul c xN n) (\<lambda>term.
     rbind (fQuo c floatOne term) (\<lambda>term.
     rbind (if is_plus then fAdd c z term else fSub c z term) (\<lambda>z.
     let is_plus = \<not> is_plus in
     rbind (terminate c loop z) (\<lambda>(stop, loop).
       if stop then ret z
       else
         rbind (fAdd c n floatTwo) (\<lambda>n.
         rbind (fMul c xN xSquared) (\<lambda>xN.
         floatAtanLarge_loop c xSquared loop n xN z is_plus))))))"

definition floatAtanLarge :: "'l ctx \<Rightarrow> bigfloat \<Rightarrow> bigfloat result" where
  "floatAtanLarge c x =
     (let n = floatOne;
          xN = fSet c x
      in rbind (fMul c x x) (\<lambda>xSquared.
         rbind (fQuo c (Finite (floatPi c)) floatTwo) (\<lambda>z.
         let is_plus = False;
             loop = newLoop c ''atan'' x 4
         in floatAtanLarge_loop c xSquared loop n xN z is_plus)))"

definition floatAtan_series :: "'l ctx \<Rightarrow> bigfloat \<Rightarrow> bigfloat result" where
  "floatAtan_series c x =
     (let n = floatOne;
          two = Finite 2;
          xN = fSet c x
      in rbind (fMul c x x) (\<lambda>xSquared.
         let z = newF;
             is_plus = True;
             loop = newLoop c ''atan'' x 4
         in floatAtan_loop c two xSquared loop n xN z is_plus))"

partial_function (option) floatAtan :: "'l ctx \<Rightarrow> bigfloat \<Rightarrow> bigfloat result" where [code]:
  "floatAtan c x =
     (if Sign x < 0 then
        rbind (floatAtan c (fNeg (fSet c x))) (\<lambda>z.
        ret (fNeg z))
      else
        rbind (fSub c floatOne x) (\<lambda>tmp.
        let tmp = fAbs tmp in
        if Cmp tmp (Finite (1 / 2)) < 0 then
          rbind (fQuo c (Finite (floatPi c)) (Finite 8)) (\<lambda>z.
          rbind (floatSqrt c (FloatPrec c) floatTwo) (\<lambda>y.
          rbind (fSub c y floatOne) (\<lambda>y.
          rbind (fSub c (fSet c x) y) (\<lambda>num.
          rbind (fMul c (fSet c x) y) (\<lambda>den.
          rbind (fAdd c den floatOne) (\<lambda>den.
          rbind (fQuo c num den) (\<lambda>num.
          rbind (floatAtan c num) (\<lambda>r.
          fAdd c z r))))))))
        else if Cmp x floatOne > 0 then floatAtanLarge c x
        else floatAtan_series c x))"

section \<open>Arcsine and arccosine\<close>

definition floatAsin :: "'l ctx \<Rightarrow> bigfloat \<Rightarrow> bigfloat result" where
  "floatAsin c x =
     (if Cmp x floatOne = 0 then
        fQuo c (Finite (floatPi c)) floatTwo
      else if Cmp x floatMinusOne = 0 then
        rbind (fQuo c (Finite (floatPi c)) floatTwo) (\<lambda>z.
        ret (fNeg z))
      else
        rbind (fMul c x x) (\<lambda>z.
        rbind (fSub c floatOne z) (\<lambda>z.
        rbind (floatSqrt c (FloatPrec c) z) (\<lambda>z.
        rbind (fQuo c x z) (\<lambda>z.
        floatAtan c z)))))"

definition floatAcos :: "'l ctx \<Rightarrow> bigfloat \<Rightarrow> bigfloat result" where
  "floatAcos c x =
     rbind (fQuo c (Finite (floatPi c)) (Finite 2)) (\<lambda>z.
     rbind (floatAsin c x) (\<lambda>a.
     fSub c z a))"

section \<open>A working context\<close>

text \<open>
  The context that \<open>math/big\<close> and the spec describe, for running the functions on
  concrete inputs. Rounding is to the nearest value with a mantissa of \<open>p\<close> bits, ties
  to the even mantissa (\<open>ToNearestEven\<close>, the mode of a fresh \<open>big.Float\<close>).
\<close>

definition round_half_even :: "rat \<Rightarrow> int" where
  "round_half_even q =
     (let f = \<lfloor>q\<rfloor>; d = q - of_int f
      in if d < 1 / 2 then f else if 1 / 2 < d then f + 1 else if even f then f else f + 1)"

definition round_prec :: "nat \<Rightarrow> rat \<Rightarrow> rat" where
  "round_prec p t =
     (let s = 2 powi (int p - exponent t) in of_int (round_half_even (t * s)) / s)"

text \<open>
  Modelled from the spec: the convergence loop controller is not among the sources. The
  spec gives its state (function name, original input, extra guard digits, previous
  iterate, iteration counter) and its behaviour: \<open>terminate\<close> never stops on the first
  candidate; it stops once the candidate differs from the previous iterate by less than
  the resolution of the target precision, which is the working precision less the guard
  digits; and it fails loudly, naming the function, when the iteration count reaches a
  limit.
\<close>

record loop =
  loop_name :: string
  loop_arg :: bigfloat
  loop_guard :: nat
  loop_prevZ :: "bigfloat option"
  loop_i :: nat

definition spec_newLoop :: "string \<Rightarrow> bigfloat \<Rightarrow> nat \<Rightarrow> loop" where
  "spec_newLoop name x guard =
     \<lparr>loop_name = name, loop_arg = x, loop_guard = guard, loop_prevZ = None, loop_i = 0\<rparr>"

fun converged :: "nat \<Rightarrow> nat \<Rightarrow> bigfloat \<Rightarrow> bigfloat \<Rightarrow> bool" where
  "converged p guard (Finite a) (Finite b) =
     (\<bar>b - a\<bar> < 2 powi (exponent b - int p + int guard))"
| "converged p guard x y = (Cmp x y = 0)"

definition spec_terminate :: "nat \<Rightarrow> nat \<Rightarrow> loop \<Rightarrow> bigfloat \<Rightarrow> (bool \<times> loop) result" where
  "spec_terminate p limit l z =
     (if (case loop_prevZ l of None \<Rightarrow> False | Some prev \<Rightarrow> converged p (loop_guard l) prev z)
      then ret (True, l)
      else if limit \<le> Suc (loop_i l) then Errorf (loop_name l @ '': did not converge'')
      else ret (False, l\<lparr>loop_prevZ := Some z, loop_i := Suc (loop_i l)\<rparr>))"

definition float_ctx :: "nat \<Rightarrow> nat \<Rightarrow> loop ctx" where
  "float_ctx p limit =
     \<lparr>rounding = round_prec,
      FloatPrec = p,
      floatPi = round_prec p (3141592653589793 / 1000000000000000),
      newLoop = spec_newLoop,
      terminate = spec_terminate p limit\<rparr>"

section \<open>Assumptions on the rounding\<close>


definition representable :: "'l ctx \<Rightarrow> bigfloat \<Rightarrow> bool" where
  "representable c x \<longleftrightarrow> fSet c x = x \<and> fSet c (fNeg x) = fNeg x"

definition rel_error :: "'l ctx \<Rightarrow> rat \<Rightarrow> bool" where
  "rel_error c eps \<longleftrightarrow> (\<forall>t. \<bar>rnd c t - t\<bar> \<le> eps * \<bar>t\<bar>)"

section \<open>The nesting of the arctangent's self-calls\<close>

text \<open>
  One activation of \<open>floatAtan\<close>, with the self-call made explicit: it ends with a
  result of its own (\<open>Done\<close>: a series was summed, or something failed on the way), or it
  asks for the arctangent of another argument and has a continuation for that result
  (\<open>Call\<close>: the sign reduction and the Euler rewrite). \<open>floatAtan\<close> is this step run with
  itself for the self-call (lemma \<open>floatAtan_unfold\<close>); \<open>floatAtan_limited d\<close> is the step
  run with at most \<open>d\<close> nested self-calls, and \<open>None\<close> when that budget does not suffice.
\<close>

datatype step = Done "bigfloat result" | Call bigfloat "bigfloat \<Rightarrow> bigfloat result"

definition on_value :: "'a result \<Rightarrow> ('a \<Rightarrow> step) \<Rightarrow> step" where
  "on_value m f =
     (case m of None \<Rightarrow> Done None | Some (Inl e) \<Rightarrow> Done (Some (Inl e)) | Some (Inr v) \<Rightarrow> f v)"

definition floatAtan_step :: "'l ctx \<Rightarrow> bigfloat \<Rightarrow> step" where
  "floatAtan_step c x =
     (if Sign x < 0 then
        Call (fNeg (fSet c x)) (\<lambda>z. ret (fNeg z))
      else
        on_value (fSub c floatOne x) (\<lambda>tmp.
        let tmp = fAbs tmp in
        if Cmp tmp (Finite (1 / 2)) < 0 then
          on_value (fQuo c (Finite (floatPi c)) (Finite 8)) (\<lambda>z.
          on_value (floatSqrt c (FloatPrec c) floatTwo) (\<lambda>y.
          on_value (fSub c y floatOne) (\<lambda>y.
          on_value (fSub c (fSet c x) y) (\<lambda>num.
          on_value (fMul c (fSet c x) y) (\<lambda>den.
          on_value (fAdd c den floatOne) (\<lambda>den.
          on_value (fQuo c num den) (\<lambda>num.
          Call num (\<lambda>r. fAdd c z r))))))))
        else Done (if Cmp x floatOne > 0 then floatAtanLarge c x else floatAtan_series c x)))"

fun floatAtan_limited :: "nat \<Rightarrow> 'l ctx \<Rightarrow> bigfloat \<Rightarrow> bigfloat result option" where
  "floatAtan_limited 0 c x =
     (case floatAtan_step c x of Done r \<Rightarrow> Some r | Call a k \<Rightarrow> None)"
| "floatAtan_limited (Suc d) c x =
     (case floatAtan_step c x of
        Done r \<Rightarrow> Some r
      | Call a k \<Rightarrow> map_option (\<lambda>r. rbind r k) (floatAtan_limited d c a))"

definition rnd0 :: "'l ctx \<Rightarrow> rat \<Rightarrow> rat" where
  "rnd0 c t = (if t = 0 then 0 else rnd c t)"

definition sqrt_two_within :: "'l ctx \<Rightarrow> rat \<Rightarrow> rat \<Rightarrow> bool" where
  "sqrt_two_within c lo hi \<longleftrightarrow>
     (\<forall>s. floatSqrt c (FloatPrec c) floatTwo = ret s \<longrightarrow> (\<exists>t. s = Finite t \<and> lo \<le> t \<and> t \<le> hi))"

definition run :: "(bigfloat \<Rightarrow> bigfloat result) \<Rightarrow> step \<Rightarrow> bigfloat result" where
  "run self s = (case s of Done r \<Rightarrow> r | Call a k \<Rightarrow> rbind (self a) k)"

section \<open>Tagged values\<close>

text \<open>
  Modelled from the spec: the declaration of \<open>Value\<close> is not among the sources. The
  spec has it be the union of integer, big integer, rational and arbitrary-precision
  float; a \<open>BigFloat\<close> holds a pointer to its \<open>big.Float\<close>, here an address of the store
  of the last section.
\<close>

datatype Value = IntVal int | BigIntVal int | BigRatVal rat | BigFloatVal nat

section \<open>The special commands of the parser\<close>

text \<open>
  The scanner, the configuration and \<open>value.Parse\<close> are not among the sources. Here the
  input is the list of tokens still to be read (\<open>next\<close> takes the first, \<open>peek\<close> looks
  at it, and an exhausted input keeps giving \<open>EOF\<close>), the configuration is a record of
  its settings, \<open>Parse\<close> is a parameter, and \<open>p.errorf\<close> panics with its format string
  as the error. A panic unwinds the Go stack but keeps what was written to the
  configuration, so that every outcome comes with the parser state it leaves behind.
\<close>

datatype Type = EOF | Newline | Identifier | Number | Op | Operator | RightParen | String | OtherType

record Token =
  Type :: Type
  Text :: string

record Config =
  ibase :: int
  obase :: int
  floatPrec :: nat
  maxBits :: nat
  maxDigits :: nat
  origin :: int
  randomSeed :: int

datatype printout = Printf string "int list"

record Parser =
  tokens :: "Token list"
  config :: Config
  printed :: "printout list"

type_synonym 'a parse = "Parser \<Rightarrow> (error + 'a) \<times> Parser"

definition pbind :: "'a parse \<Rightarrow> ('a \<Rightarrow> 'b parse) \<Rightarrow> 'b parse" where
  "pbind m f p = (case m p of (Inl e, p') \<Rightarrow> (Inl e, p') | (Inr v, p') \<Rightarrow> f v p')"

definition preturn :: "'a \<Rightarrow> 'a parse" where
  "preturn v p = (Inr v, p)"

definition errorf :: "string \<Rightarrow> 'a parse" where
  "errorf msg p = (Inl (Error msg), p)"

definition next_token :: "Token parse" where
  "next_token p =
     (case tokens p of
        [] \<Rightarrow> (Inr \<lparr>Type = EOF, Text = ''''\<rparr>, p)
      | t # ts \<Rightarrow> (Inr t, p\<lparr>tokens := ts\<rparr>))"

definition peek :: "Parser \<Rightarrow> Token" where
  "peek p = (case tokens p of [] \<Rightarrow> \<lparr>Type = EOF, Text = ''''\<rparr> | t # ts \<Rightarrow> t)"

definition need :: "Type list \<Rightarrow> Token parse" where
  "need want =
     pbind next_token (\<lambda>tok.
       if Type tok \<in> set want then preturn tok
       else errorf ''expected %s, got %s'')"


definition print :: "string \<Rightarrow> int list \<Rightarrow> unit parse" where
  "print fmt args p = (Inr (), p\<lparr>printed := printed p @ [Printf fmt args]\<rparr>)"

definition SetBase :: "int \<Rightarrow> int \<Rightarrow> Config \<Rightarrow> Config" where
  "SetBase i o' c = c\<lparr>ibase := i, obase := o'\<rparr>"

definition with_config :: "(Config \<Rightarrow> Config) \<Rightarrow> Parser \<Rightarrow> Parser" where
  "with_config f p = p\<lparr>config := f (config p)\<rparr>"

definition MaxBigInt63 :: int where
  "MaxBigInt63 = 2 ^ 63 - 1"

text \<open>
  \<open>nextDecimalNumber64\<close> reads the number in base ten: it sets the input base to ten
  and defers the call that restores both bases, which therefore also runs when the body
  panics.
\<close>

definition nextDecimalNumber64 :: "(Config \<Rightarrow> string \<Rightarrow> string + Value) \<Rightarrow> int parse" where
  "nextDecimalNumber64 Parse p =
     (let i = ibase (config p); o' = obase (config p);
          body =
            pbind (need [Number]) (\<lambda>tok q.
              (case Parse (config q) (Text tok) of
                 Inl err \<Rightarrow> errorf ''%s'' q
               | Inr v \<Rightarrow>
                   pbind
                     (case v of
                        IntVal num \<Rightarrow> preturn num
                      | BigIntVal num \<Rightarrow>
                          if num < 0 \<or> MaxBigInt63 < num then errorf ''value out of range: %v''
                          else preturn num
                      | _ \<Rightarrow> preturn (- 1))
                     (\<lambda>n. if n < 0 then errorf ''value must be a positive integer: %v''
                          else preturn n)
                     q));
          (r, p') = body (with_config (SetBase 10 o') p)
      in (r, with_config (SetBase i o') p'))"

text \<open>
  The test \<open>n64 != int64(int32(n64))\<close>: the conversion to \<open>int32\<close> wraps around.
\<close>

definition nextDecimalNumber :: "(Config \<Rightarrow> string \<Rightarrow> string + Value) \<Rightarrow> int parse" where
  "nextDecimalNumber Parse =
     pbind (nextDecimalNumber64 Parse) (\<lambda>n64.
       if n64 \<noteq> signed_take_bit 31 n64 then errorf ''value too large: %v''
       else preturn n64)"

text \<open>
  The cases of the \<open>switch\<close> in \<open>special\<close> that read and write numeric settings, one
  definition each. The cases \<open>help\<close>, \<open>debug\<close>, \<open>format\<close>, \<open>get\<close>, \<open>op\<close>, \<open>prompt\<close>
  and \<open>save\<close> print, toggle flags and run or write files through code that is not among
  the sources; they are the parameter \<open>extern\<close>.
\<close>

definition special_base ::
  "(Config \<Rightarrow> string \<Rightarrow> string + Value) \<Rightarrow> string \<Rightarrow> unit parse" where
  "special_base Parse text p =
     (let i = ibase (config p); o' = obase (config p) in
      if Type (peek p) = Newline then
        pbind (print ''ibase %d'' [i]) (\<lambda>_. print ''obase %d'' [o']) p
      else
        pbind (nextDecimalNumber Parse) (\<lambda>base q.
          if base \<noteq> 0 \<and> (base < 2 \<or> 36 < base) then errorf ''illegal base %d'' q
          else
            let i = (if text = ''base'' \<or> text = ''ibase'' then base else i);
                o' = (if text = ''base'' \<or> text = ''obase'' then base else o')
            in preturn () (with_config (SetBase i o') q)) p)"

definition special_maxbits :: "(Config \<Rightarrow> string \<Rightarrow> string + Value) \<Rightarrow> unit parse" where
  "special_maxbits Parse p =
     (if Type (peek p) = Newline then print ''%d'' [int (maxBits (config p))] p
      else
        pbind (nextDecimalNumber Parse) (\<lambda>max.
          preturn () \<circ> with_config (\<lambda>c. c\<lparr>maxBits := nat max\<rparr>)) p)"

definition special_maxdigits :: "(Config \<Rightarrow> string \<Rightarrow> string + Value) \<Rightarrow> unit parse" where
  "special_maxdigits Parse p =
     (if Type (peek p) = Newline then print ''%d'' [int (maxDigits (config p))] p
      else
        pbind (nextDecimalNumber Parse) (\<lambda>max.
          preturn () \<circ> with_config (\<lambda>c. c\<lparr>maxDigits := nat max\<rparr>)) p)"

definition special_origin :: "(Config \<Rightarrow> string \<Rightarrow> string + Value) \<Rightarrow> unit parse" where
  "special_origin Parse p =
     (if Type (peek p) = Newline then print ''%v'' [origin (config p)] p
      else
        pbind (nextDecimalNumber Parse) (\<lambda>org.
          if org \<noteq> 0 \<and> org \<noteq> 1 then errorf ''illegal origin %d''
          else preturn () \<circ> with_config (\<lambda>c. c\<lparr>origin := org\<rparr>)) p)"

definition special_prec :: "(Config \<Rightarrow> string \<Rightarrow> string + Value) \<Rightarrow> unit parse" where
  "special_prec Parse p =
     (if Type (peek p) = Newline then print ''%d'' [int (floatPrec (config p))] p
      else
        pbind (nextDecimalNumber Parse) (\<lambda>prec.
          if prec = 0 \<or> 1000000 < prec then errorf ''illegal prec %d''
          else preturn () \<circ> with_config (\<lambda>c. c\<lparr>floatPrec := nat prec\<rparr>)) p)"

definition special_seed :: "(Config \<Rightarrow> string \<Rightarrow> string + Value) \<Rightarrow> unit parse" where
  "special_seed Parse p =
     (if Type (peek p) = Newline then print ''%v'' [origin (config p)] p
      else
        pbind (nextDecimalNumber64 Parse) (\<lambda>seed.
          preturn () \<circ> with_config (\<lambda>c. c\<lparr>randomSeed := seed\<rparr>)) p)"

definition special ::
  "(Config \<Rightarrow> string \<Rightarrow> string + Value) \<Rightarrow> (string \<Rightarrow> unit parse) \<Rightarrow> unit parse" where
  "special Parse extern =
     pbind (need [RightParen]) (\<lambda>_.
     pbind (need [Identifier, Op]) (\<lambda>tok.
     let text = Text tok in
     pbind
       (if text \<in> {''help'', ''debug'', ''format'', ''get'', ''op'', ''prompt'', ''save''}
          then extern text
        else if text \<in> {''base'', ''ibase'', ''obase''} then special_base Parse text
        else if text = ''maxbits'' then special_maxbits Parse
        else if text = ''maxdigits'' then special_maxdigits Parse
        else if text = ''origin'' then special_origin Parse
        else if text = ''prec'' then special_prec Parse
        else if text = ''seed'' then special_seed Parse
        else errorf '')%s: not recognized'')
       (\<lambda>_.
     pbind (need [Newline, EOF]) (\<lambda>_.
     preturn ()))))"

text \<open>
  A reader of decimal numerals to stand for \<open>value.Parse\<close>, and a configuration, for
  running \<open>special\<close> on concrete input.
\<close>

fun digits_value :: "int \<Rightarrow> string \<Rightarrow> int option" where
  "digits_value acc [] = Some acc"
| "digits_value acc (d # ds) =
     (let n = (of_char d :: nat) in
      if 48 \<le> n \<and> n \<le> 57 then digits_value (10 * acc + (int n - 48)) ds
      else None)"

definition parse_decimal :: "Config \<Rightarrow> string \<Rightarrow> string + Value" where
  "parse_decimal c s =
     (case (if s = [] then None else digits_value 0 s) of
        None \<Rightarrow> Inl ''bad number''
      | Some n \<Rightarrow> Inr (if n \<le> MaxBigInt63 then IntVal n else BigIntVal n))"

definition no_extern :: "string \<Rightarrow> unit parse" where
  "no_extern text = errorf ''not available''"

definition config0 :: Config where
  "config0 = \<lparr>ibase = 10, obase = 10, floatPrec = 256, maxBits = 1000,
     maxDigits = 100, origin = 1, randomSeed = 0\<rparr>"

definition tok :: "Type \<Rightarrow> string \<Rightarrow> Token" where
  "tok ty s = \<lparr>Type = ty, Text = s\<rparr>"

section \<open>The functions on a store of floats\<close>

text \<open>
  A \<open>*big.Float\<close> is a pointer, and every arithmetic method writes its result into its
  receiver. To say what a call leaves untouched, the four functions are given once more,
  statement by statement, over a store: a float is an address, its cell holds its
  precision and its value, \<open>newF\<close> takes the next free address, a method call
  \<open>z.Op(x, y)\<close> reads the cells of \<open>x\<close> and \<open>y\<close>, writes the cell of \<open>z\<close> and returns
  \<open>z\<close>, and the floats \<open>floatOne\<close>, \<open>floatTwo\<close>, \<open>floatMinusOne\<close> and \<open>floatPi\<close> of the
  package live at the addresses that \<open>globals\<close> names. An outcome is \<open>None\<close> when the
  call does not return, and otherwise the value or the panic together with the store it
  leaves.

  The result of a method is rounded to the precision of its receiver; a receiver of
  precision 0 first takes the precision of the operands (\<open>receiver\<close>). A method that
  panics with an \<open>ErrNaN\<close> leaves a zero in its receiver.

  The loop controller is not among the sources: here it is handed the values of the
  floats it is called with, so that it keeps copies and writes to no float of its caller.
\<close>

record Float =
  fprec :: nat
  fval :: bigfloat

record store =
  cells :: "nat \<Rightarrow> Float"
  next_free :: nat

type_synonym 'a st = "store \<Rightarrow> ((error + 'a) \<times> store) option"

definition sreturn :: "'a \<Rightarrow> 'a st" where
  "sreturn v h = Some (Inr v, h)"

definition sraise :: "error \<Rightarrow> 'a st" where
  "sraise e h = Some (Inl e, h)"

definition sbind :: "'a st \<Rightarrow> ('a \<Rightarrow> 'b st) \<Rightarrow> 'b st" where
  "sbind m k h =
     Option.bind (m h) (\<lambda>(r, h'). case r of Inl e \<Rightarrow> Some (Inl e, h') | Inr v \<Rightarrow> k v h')"

definition newF_st :: "'l ctx \<Rightarrow> nat st" where
  "newF_st c h =
     Some (Inr (next_free h),
       h\<lparr>cells := (cells h)(next_free h := \<lparr>fprec = FloatPrec c, fval = Finite 0\<rparr>),
         next_free := Suc (next_free h)\<rparr>)"

definition receiver :: "store \<Rightarrow> nat \<Rightarrow> nat \<Rightarrow> nat" where
  "receiver h z p = (if fprec (cells h z) = 0 then p else fprec (cells h z))"

definition put :: "nat \<Rightarrow> nat \<Rightarrow> bigfloat \<Rightarrow> nat st" where
  "put z p v h = Some (Inr z, h\<lparr>cells := (cells h)(z := \<lparr>fprec = p, fval = v\<rparr>)\<rparr>)"

definition assign :: "nat \<Rightarrow> nat \<Rightarrow> bigfloat result \<Rightarrow> nat st" where
  "assign z p r h =
     (case r of
        None \<Rightarrow> None
      | Some (Inl e) \<Rightarrow>
          Some (Inl e, h\<lparr>cells := (cells h)(z := \<lparr>fprec = p, fval = Finite 0\<rparr>)\<rparr>)
      | Some (Inr v) \<Rightarrow> put z p v h)"

text \<open>\<open>z.Set(x)\<close> does nothing when \<open>z\<close> is \<open>x\<close>; otherwise it rounds to the precision of \<open>z\<close>.\<close>

definition Set_st :: "'l ctx \<Rightarrow> nat \<Rightarrow> nat \<Rightarrow> nat st" where
  "Set_st c z x h =
     (if z = x then sreturn z h
      else
        let p = receiver h z (fprec (cells h x))
        in put z p (fSet (at_prec c p) (fval (cells h x))) h)"

definition SetInt64_st :: "nat \<Rightarrow> int \<Rightarrow> nat st" where
  "SetInt64_st z n h = put z (receiver h z 64) (Finite (of_int n)) h"

definition SetFloat64_st :: "nat \<Rightarrow> rat \<Rightarrow> nat st" where
  "SetFloat64_st z q h = put z (receiver h z 53) (Finite q) h"

text \<open>\<open>z.Neg(x)\<close> and \<open>z.Abs(x)\<close> set \<open>z\<close> to \<open>x\<close> and then change the sign of \<open>z\<close>.\<close>

definition Neg_st :: "'l ctx \<Rightarrow> nat \<Rightarrow> nat \<Rightarrow> nat st" where
  "Neg_st c z x =
     sbind (Set_st c z x) (\<lambda>_ h. put z (fprec (cells h z)) (fNeg (fval (cells h z))) h)"

definition Abs_st :: "'l ctx \<Rightarrow> nat \<Rightarrow> nat \<Rightarrow> nat st" where
  "Abs_st c z x =
     sbind (Set_st c z x) (\<lambda>_ h. put z (fprec (cells h z)) (fAbs (fval (cells h z))) h)"

definition binop ::
  "('l ctx \<Rightarrow> bigfloat \<Rightarrow> bigfloat \<Rightarrow> bigfloat result) \<Rightarrow> 'l ctx \<Rightarrow> nat \<Rightarrow> nat \<Rightarrow> nat \<Rightarrow> nat st" where
  "binop f c z x y h =
     (let p = receiver h z (max (fprec (cells h x)) (fprec (cells h y)))
      in assign z p (f (at_prec c p) (fval (cells h x)) (fval (cells h y))) h)"

definition Add_st :: "'l ctx \<Rightarrow> nat \<Rightarrow> nat \<Rightarrow> nat \<Rightarrow> nat st" where
  "Add_st = binop fAdd"

definition Sub_st :: "'l ctx \<Rightarrow> nat \<Rightarrow> nat \<Rightarrow> nat \<Rightarrow> nat st" where
  "Sub_st = binop fSub"

definition Mul_st :: "'l ctx \<Rightarrow> nat \<Rightarrow> nat \<Rightarrow> nat \<Rightarrow> nat st" where
  "Mul_st = binop fMul"

definition Quo_st :: "'l ctx \<Rightarrow> nat \<Rightarrow> nat \<Rightarrow> nat \<Rightarrow> nat st" where
  "Quo_st = binop fQuo"

text \<open>
  \<open>x.MantExp(mant)\<close> makes \<open>mant\<close> a copy of \<open>x\<close>, precision included, with the exponent
  0, and returns the exponent of \<open>x\<close>. \<open>z.SetMantExp(mant, e)\<close> sets \<open>z\<close> to \<open>mant\<close> and
  adds \<open>e\<close> to its exponent.
\<close>

definition MantExp_st :: "nat \<Rightarrow> nat \<Rightarrow> int st" where
  "MantExp_st x mant h =
     (let (m, e) = MantExp (fval (cells h x))
      in Some (Inr e, h\<lparr>cells := (cells h)(mant := \<lparr>fprec = fprec (cells h x), fval = m\<rparr>)\<rparr>))"

definition SetMantExp_st :: "'l ctx \<Rightarrow> nat \<Rightarrow> nat \<Rightarrow> int \<Rightarrow> nat st" where
  "SetMantExp_st c z mant e =
     sbind (Set_st c z mant) (\<lambda>_ h.
       put z (fprec (cells h z)) (SetMantExp (fval (cells h z)) e) h)"

definition terminate_st :: "'l ctx \<Rightarrow> 'l \<Rightarrow> nat \<Rightarrow> (bool \<times> 'l) st" where
  "terminate_st c loop z h =
     (case terminate c loop (fval (cells h z)) of
        None \<Rightarrow> None
      | Some (Inl e) \<Rightarrow> Some (Inl e, h)
      | Some (Inr v) \<Rightarrow> Some (Inr v, h))"

definition Sign_st :: "nat \<Rightarrow> int st" where
  "Sign_st x h = Some (Inr (Sign (fval (cells h x))), h)"

definition Cmp_st :: "nat \<Rightarrow> nat \<Rightarrow> int st" where
  "Cmp_st x y h = Some (Inr (Cmp (fval (cells h x)) (fval (cells h y))), h)"

definition newLoop_st :: "'l ctx \<Rightarrow> string \<Rightarrow> nat \<Rightarrow> nat \<Rightarrow> 'l st" where
  "newLoop_st c name x n h = Some (Inr (newLoop c name (fval (cells h x)) n), h)"

record globals =
  floatOne_at :: nat
  floatTwo_at :: nat
  floatMinusOne_at :: nat
  floatPi_at :: nat

lemma sbind_mono [partial_function_mono]:
  assumes mf: "mono_option (\<lambda>f. B f h)" and mg: "\<And>y h'. mono_option (\<lambda>f. C y f h')"
  shows "mono_option (\<lambda>f. sbind (B f) (\<lambda>y. C y f) h)"
  unfolding sbind_def
proof (rule bind_mono [OF mf])
  fix rh
  show "mono_option (\<lambda>f. (case rh of (r, h') \<Rightarrow> case r of Inl e \<Rightarrow> Some (Inl e, h') | Inr v \<Rightarrow> C v f h'))"
    by (cases rh; cases "fst rh") (simp_all add: option.const_mono mg)
qed

partial_function (option) floatSqrt_loop_st ::
  "'l ctx \<Rightarrow> globals \<Rightarrow> nat \<Rightarrow> 'l \<Rightarrow> nat \<Rightarrow> nat \<Rightarrow> nat \<Rightarrow> nat \<Rightarrow> nat st" where [code]:
  "floatSqrt_loop_st c g x loop z zSquared num den h =
     sbind (Mul_st c zSquared z z) (\<lambda>_.
     sbind (Sub_st c num zSquared x) (\<lambda>_.
     sbind (Mul_st c den (floatTwo_at g) z) (\<lambda>_.
     sbind (Quo_st c num num den) (\<lambda>_.
     sbind (Sub_st c z z num) (\<lambda>_.
     sbind (terminate_st c loop z) (\<lambda>(stop, loop) h.
       if stop then sreturn z h
       else floatSqrt_loop_st c g x loop z zSquared num den h)))))) h"

definition floatSqrt_st :: "'l ctx \<Rightarrow> globals \<Rightarrow> nat \<Rightarrow> nat st" where
  "floatSqrt_st c g x =
     sbind (Sign_st x) (\<lambda>s.
     if s = - 1 then sraise (Error ''square root of negative number'')
     else if s = 0 then newF_st c
     else
       sbind (newF_st c) (\<lambda>z.
       sbind (MantExp_st x z) (\<lambda>exp.
       sbind (SetMantExp_st c z z (go_quo exp 2)) (\<lambda>_.
       sbind (newF_st c) (\<lambda>zSquared.
       sbind (newF_st c) (\<lambda>num.
       sbind (newF_st c) (\<lambda>den.
       sbind (newLoop_st c ''sqrt'' x 1) (\<lambda>loop.
       floatSqrt_loop_st c g x loop z zSquared num den))))))))"

partial_function (option) floatAtan_loop_st ::
  "'l ctx \<Rightarrow> 'l \<Rightarrow> nat \<Rightarrow> nat \<Rightarrow> nat \<Rightarrow> nat \<Rightarrow> nat \<Rightarrow> nat \<Rightarrow> bool \<Rightarrow> nat st" where [code]:
  "floatAtan_loop_st c loop n two tm xN xSquared z is_plus h =
     sbind (Set_st c tm xN) (\<lambda>_.
     sbind (Quo_st c tm tm n) (\<lambda>_.
     sbind (if is_plus then Add_st c z z tm else Sub_st c z z tm) (\<lambda>_.
     sbind (terminate_st c loop z) (\<lambda>(stop, loop) h.
       if stop then sreturn z h
       else
         sbind (Add_st c n n two) (\<lambda>_.
         sbind (Mul_st c xN xN xSquared) (\<lambda>_ h.
         floatAtan_loop_st c loop n two tm xN xSquared z (\<not> is_plus) h)) h)))) h"

partial_function (option) floatAtanLarge_loop_st ::
  "'l ctx \<Rightarrow> globals \<Rightarrow> 'l \<Rightarrow> nat \<Rightarrow> nat \<Rightarrow> nat \<Rightarrow> nat \<Rightarrow> nat \<Rightarrow> bool \<Rightarrow> nat st" where [code]:
  "floatAtanLarge_loop_st c g loop n tm xN xSquared z is_plus h =
     sbind (Set_st c tm xN) (\<lambda>_.
     sbind (Mul_st c tm tm n) (\<lambda>_.
     sbind (Quo_st c tm (floatOne_at g) tm) (\<lambda>_.
     sbind (if is_plus then Add_st c z z tm else Sub_st c z z tm) (\<lambda>_.
     sbind (terminate_st c loop z) (\<lambda>(stop, loop) h.
       if stop then sreturn z h
       else
         sbind (Add_st c n n (floatTwo_at g)) (\<lambda>_.
         sbind (Mul_st c xN xN xSquared) (\<lambda>_ h.
         floatAtanLarge_loop_st c g loop n tm xN xSquared z (\<not> is_plus) h)) h))))) h"

definition floatAtanLarge_st :: "'l ctx \<Rightarrow> globals \<Rightarrow> nat \<Rightarrow> nat st" where
  "floatAtanLarge_st c g x =
     sbind (newF_st c) (\<lambda>n.
     sbind (Set_st c n (floatOne_at g)) (\<lambda>_.
     sbind (newF_st c) (\<lambda>tm.
     sbind (newF_st c) (\<lambda>xN.
     sbind (Set_st c xN x) (\<lambda>_.
     sbind (newF_st c) (\<lambda>xSquared.
     sbind (Set_st c xSquared x) (\<lambda>_.
     sbind (Mul_st c xSquared x x) (\<lambda>_.
     sbind (newF_st c) (\<lambda>z.
     sbind (Set_st c z (floatPi_at g)) (\<lambda>_.
     sbind (Quo_st c z z (floatTwo_at g)) (\<lambda>_.
     sbind (newLoop_st c ''atan'' x 4) (\<lambda>loop.
     floatAtanLarge_loop_st c g loop n tm xN xSquared z False))))))))))))"

definition floatAtan_series_st :: "'l ctx \<Rightarrow> globals \<Rightarrow> nat \<Rightarrow> nat st" where
  "floatAtan_series_st c g x =
     sbind (newF_st c) (\<lambda>n.
     sbind (Set_st c n (floatOne_at g)) (\<lambda>_.
     sbind (newF_st c) (\<lambda>two.
     sbind (SetInt64_st two 2) (\<lambda>_.
     sbind (newF_st c) (\<lambda>tm.
     sbind (newF_st c) (\<lambda>xN.
     sbind (Set_st c xN x) (\<lambda>_.
     sbind (newF_st c) (\<lambda>xSquared.
     sbind (Set_st c xSquared x) (\<lambda>_.
     sbind (Mul_st c xSquared x x) (\<lambda>_.
     sbind (newF_st c) (\<lambda>z.
     sbind (newLoop_st c ''atan'' x 4) (\<lambda>loop.
     floatAtan_loop_st c loop n two tm xN xSquared z True))))))))))))"

partial_function (option) floatAtan_st :: "'l ctx \<Rightarrow> globals \<Rightarrow> nat \<Rightarrow> nat st" where [code]:
  "floatAtan_st c g x h =
     sbind (Sign_st x) (\<lambda>s h.
     if s < 0 then
       sbind (newF_st c) (\<lambda>z.
       sbind (Set_st c z x) (\<lambda>_.
       sbind (Neg_st c z z) (\<lambda>z.
       sbind (\<lambda>h. floatAtan_st c g z h) (\<lambda>z.
       Neg_st c z z)))) h
     else
       sbind (newF_st c) (\<lambda>tmp.
       sbind (Set_st c tmp (floatOne_at g)) (\<lambda>_.
       sbind (Sub_st c tmp tmp x) (\<lambda>_.
       sbind (Abs_st c tmp tmp) (\<lambda>_.
       sbind (newF_st c) (\<lambda>half.
       sbind (SetFloat64_st half (1 / 2)) (\<lambda>_.
       sbind (Cmp_st tmp half) (\<lambda>cmp h.
       if cmp < 0 then
         sbind (newF_st c) (\<lambda>z.
         sbind (Set_st c z (floatPi_at g)) (\<lambda>_.
         sbind (newF_st c) (\<lambda>eight.
         sbind (SetInt64_st eight 8) (\<lambda>_.
         sbind (Quo_st c z z eight) (\<lambda>_.
         sbind (floatSqrt_st c g (floatTwo_at g)) (\<lambda>y.
         sbind (Sub_st c y y (floatOne_at g)) (\<lambda>_.
         sbind (newF_st c) (\<lambda>num.
         sbind (Set_st c num x) (\<lambda>_.
         sbind (Sub_st c num num y) (\<lambda>_.
         sbind (newF_st c) (\<lambda>den.
         sbind (Set_st c den x) (\<lambda>_.
         sbind (Mul_st c den den y) (\<lambda>den.
         sbind (Add_st c den den (floatOne_at g)) (\<lambda>den.
         sbind (Quo_st c num num den) (\<lambda>q.
         sbind (\<lambda>h. floatAtan_st c g q h) (\<lambda>r.
         Add_st c z z r)))))))))))))))) h
       else
         sbind (Cmp_st x (floatOne_at g)) (\<lambda>cmp.
         if cmp > 0 then floatAtanLarge_st c g x
         else floatAtan_series_st c g x) h))))))) h) h"

definition floatAsin_st :: "'l ctx \<Rightarrow> globals \<Rightarrow> nat \<Rightarrow> nat st" where
  "floatAsin_st c g x =
     sbind (Cmp_st x (floatOne_at g)) (\<lambda>cmp.
     if cmp = 0 then
       sbind (newF_st c) (\<lambda>z.
       sbind (Set_st c z (floatPi_at g)) (\<lambda>_.
       Quo_st c z z (floatTwo_at g)))
     else
       sbind (Cmp_st x (floatMinusOne_at g)) (\<lambda>cmp.
       if cmp = 0 then
         sbind (newF_st c) (\<lambda>z.
         sbind (Set_st c z (floatPi_at g)) (\<lambda>_.
         sbind (Quo_st c z z (floatTwo_at g)) (\<lambda>_.
         Neg_st c z z)))
       else
         sbind (newF_st c) (\<lambda>z.
         sbind (Mul_st c z x x) (\<lambda>_.
         sbind (Sub_st c z (floatOne_at g) z) (\<lambda>_.
         sbind (floatSqrt_st c g z) (\<lambda>z.
         sbind (Quo_st c z x z) (\<lambda>_.
         floatAtan_st c g z)))))))"

definition floatAcos_st :: "'l ctx \<Rightarrow> globals \<Rightarrow> nat \<Rightarrow> nat st" where
  "floatAcos_st c g x =
     sbind (newF_st c) (\<lambda>z.
     sbind (Set_st c z (floatPi_at g)) (\<lambda>_.
     sbind (newF_st c) (\<lambda>two.
     sbind (SetInt64_st two 2) (\<lambda>_.
     sbind (Quo_st c z z two) (\<lambda>_.
     sbind (floatAsin_st c g x) (\<lambda>a.
     Sub_st c z z a))))))"

text \<open>
  Modelled from the spec: \<open>floatSelf\<close> and \<open>shrink\<close> are not among the sources. By the
  spec the first converts a tagged value to a float of the working precision, and the
  second turns a float into the narrowest kind of value that holds it exactly. Here
  \<open>floatSelf\<close> hands on the very float of a \<open>BigFloat\<close>, without a copy, which is the case
  in which a write to the argument would show in the caller's value.
\<close>

definition floatSelf_st :: "'l ctx \<Rightarrow> Value \<Rightarrow> nat st" where
  "floatSelf_st c v =
     (case v of
        BigFloatVal p \<Rightarrow> sreturn p
      | IntVal n \<Rightarrow> sbind (newF_st c) (\<lambda>z. put z (FloatPrec c) (round_to c (of_int n)))
      | BigIntVal n \<Rightarrow> sbind (newF_st c) (\<lambda>z. put z (FloatPrec c) (round_to c (of_int n)))
      | BigRatVal q \<Rightarrow> sbind (newF_st c) (\<lambda>z. put z (FloatPrec c) (round_to c q)))"

definition shrink_st :: "nat \<Rightarrow> Value st" where
  "shrink_st p h =
     Some (Inr (case fval (cells h p) of
         Finite q \<Rightarrow>
           if of_int \<lfloor>q\<rfloor> = q then
             (if - MaxBigInt63 - 1 \<le> \<lfloor>q\<rfloor> \<and> \<lfloor>q\<rfloor> \<le> MaxBigInt63 then IntVal \<lfloor>q\<rfloor>
              else BigIntVal \<lfloor>q\<rfloor>)
           else BigFloatVal p
       | Infinite neg \<Rightarrow> BigFloatVal p), h)"

definition evalFloatFunc :: "'l ctx \<Rightarrow> Value \<Rightarrow> (nat \<Rightarrow> nat st) \<Rightarrow> Value st" where
  "evalFloatFunc c v fn =
     sbind (floatSelf_st c v) (\<lambda>x.
     sbind (fn x) (\<lambda>r.
     shrink_st r))"

definition sqrt_st :: "'l ctx \<Rightarrow> globals \<Rightarrow> Value \<Rightarrow> Value st" where
  "sqrt_st c g v = evalFloatFunc c v (floatSqrt_st c g)"

definition asin_st :: "'l ctx \<Rightarrow> globals \<Rightarrow> Value \<Rightarrow> Value st" where
  "asin_st c g v = evalFloatFunc c v (floatAsin_st c g)"

definition acos_st :: "'l ctx \<Rightarrow> globals \<Rightarrow> Value \<Rightarrow> Value st" where
  "acos_st c g v = evalFloatFunc c v (floatAcos_st c g)"

definition atan_st :: "'l ctx \<Rightarrow> globals \<Rightarrow> Value \<Rightarrow> Value st" where
  "atan_st c g v = evalFloatFunc c v (floatAtan_st c g)"

definition float_of :: "store \<Rightarrow> Value \<Rightarrow> Float option" where
  "float_of h v = (case v of BigFloatVal p \<Rightarrow> Some (cells h p) | _ \<Rightarrow> None)"

definition allocated :: "store \<Rightarrow> Value \<Rightarrow> bool" where
  "allocated h v = (case v of BigFloatVal p \<Rightarrow> p < next_free h | _ \<Rightarrow> True)"

text \<open>
  \<open>keeps b m Q\<close>: run from a store whose addresses below \<open>b\<close> are allocated, \<open>m\<close> does not
  release an address, leaves the cells below \<open>b\<close> as they were, and a value it returns has
  \<open>Q\<close>. \<open>kept\<close> is the same about one outcome that returns an address.
\<close>

definition keeps :: "nat \<Rightarrow> 'a st \<Rightarrow> ('a \<Rightarrow> bool) \<Rightarrow> bool" where
  "keeps b m Q \<longleftrightarrow>
     (\<forall>h r h'. b \<le> next_free h \<longrightarrow> m h = Some (r, h') \<longrightarrow>
        next_free h \<le> next_free h' \<and> (\<forall>a<b. cells h' a = cells h a) \<and>
        (\<forall>v. r = Inr v \<longrightarrow> Q v))"

definition kept :: "nat \<Rightarrow> store \<Rightarrow> (error + nat) \<times> store \<Rightarrow> bool" where
  "kept b h y \<longleftrightarrow>
     next_free h \<le> next_free (snd y) \<and> (\<forall>a<b. cells (snd y) a = cells h a) \<and>
     (\<forall>v. fst y = Inr v \<longrightarrow> b \<le> v)"

text \<open>A store with the four floats of the package and one more float, for concrete runs.\<close>

definition globals0 :: globals where
  "globals0 = \<lparr>floatOne_at = 0, floatTwo_at = 1, floatMinusOne_at = 2, floatPi_at = 3\<rparr>"

definition working :: "'l ctx \<Rightarrow> bigfloat \<Rightarrow> Float" where
  "working c v = \<lparr>fprec = FloatPrec c, fval = v\<rparr>"

definition store0 :: "'l ctx \<Rightarrow> Float \<Rightarrow> store" where
  "store0 c x =
     \<lparr>cells = (\<lambda>_. working c (Finite 0))
        (0 := working c (Finite 1), 1 := working c (Finite 2), 2 := working c (Finite (- 1)),
         3 := working c (Finite (floatPi c)), 4 := x),
      next_free = 5\<rparr>"

section \<open>The result monad\<close>

lemma rbind_ret [simp]: "rbind (ret v) f = f v"
  by (simp add: rbind_def ret_def)

lemma rbind_raise [simp]: "rbind (raise e) f = raise e"
  by (simp add: rbind_def raise_def)

lemma rbind_None [simp]: "rbind None f = None"
  by (simp add: rbind_def)

lemma rbind_Some_Inr [simp]: "rbind (Some (Inr v)) f = f v"
  by (simp add: rbind_def)

lemma rbind_Some_Inl [simp]: "rbind (Some (Inl e)) f = Some (Inl e)"
  by (simp add: rbind_def)

lemma fNeg_fNeg [simp]: "fNeg (fNeg x) = x"
  by (cases x) simp_all

lemma Sign_fNeg [simp]: "Sign (fNeg x) = - Sign x"
  by (cases x) auto

lemma rbind_assoc: "rbind (rbind m f) g = rbind m (\<lambda>x. rbind (f x) g)"
  by (cases m) (auto simp: rbind_def split: sum.splits)

lemma rbind_ret_right [simp]: "rbind m ret = m"
  by (cases m) (auto simp: rbind_def ret_def split: sum.splits)

lemma rbind_fNeg_fNeg: "rbind (rbind m (\<lambda>z. ret (fNeg z))) (\<lambda>z. ret (fNeg z)) = m"
  by (simp add: rbind_assoc)

lemma Sign_cases: "Sign x < 0 \<or> 0 < Sign x \<or> x = Finite 0"
  by (cases x) auto

lemma ret_eq_iff [simp]: "ret a = ret b \<longleftrightarrow> a = b"
  by (simp add: ret_def)

lemma rbind_eq_SomeD:
  assumes "rbind m f = Some y"
  obtains (err) e where "m = Some (Inl e)" "y = Inl e"
        | (val) v where "m = Some (Inr v)" "f v = Some y"
  using assms by (cases m) (auto simp: rbind_def split: sum.splits)

lemma round_to_zero [simp]: "round_to c 0 = Finite 0"
  by (simp add: round_to_def)

lemma fQuo_zero_num: "fQuo c (Finite 0) n = Some (Inr r) \<Longrightarrow> r = Finite 0"
  by (cases n) (auto simp: ret_def raise_def split: if_splits)

lemma round_to_Finite: "\<exists>h. round_to c t = Finite h"
  by (simp add: round_to_def)

lemma round_to_error:
  assumes "rel_error c eps"
  shows "round_to c t = Finite r \<Longrightarrow> \<bar>r - t\<bar> \<le> eps * \<bar>t\<bar>"
  using assms by (auto simp: round_to_def rel_error_def split: if_splits)

section \<open>Rounding to a mantissa of \<open>p\<close> bits\<close>

lemma exponent_ge1:
  fixes t :: rat
  assumes "1 \<le> \<bar>t\<bar>"
  shows "2 powi (exponent t - 1) \<le> \<bar>t\<bar>" and "\<bar>t\<bar> < 2 powi exponent t"
proof -
  define n where "n = \<lfloor>\<bar>t\<bar>\<rfloor>"
  define b where "b = bitlen n"
  have n: "0 < n" using assms by (simp add: n_def)
  have e: "exponent t = b" using assms by (auto simp: exponent_def n_def b_def)
  have b1: "1 \<le> b" using n bitlen_eq_zero_iff[of n] bitlen_nonneg[of n] by (simp add: b_def)
  from bitlen_bounds[OF n] have lo: "2 ^ nat (b - 1) \<le> n" and hi: "n < 2 ^ nat b"
    by (simp_all add: b_def)
  have "(2::rat) powi (b - 1) = of_int (2 ^ nat (b - 1))"
    using b1 by (simp add: power_int_def)
  also have "\<dots> \<le> of_int n" using lo by (simp only: of_int_le_iff)
  also have "\<dots> \<le> \<bar>t\<bar>" by (simp add: n_def)
  finally show "2 powi (exponent t - 1) \<le> \<bar>t\<bar>" by (simp add: e)
  have "n + 1 \<le> 2 ^ nat b" using hi by simp
  then have "(of_int (n + 1) :: rat) \<le> of_int (2 ^ nat b)" by (simp only: of_int_le_iff)
  moreover have "\<bar>t\<bar> < of_int (n + 1)" unfolding n_def by linarith
  moreover have "(2::rat) powi b = of_int (2 ^ nat b)" using b1 by (simp add: power_int_def)
  ultimately show "\<bar>t\<bar> < 2 powi exponent t" by (simp add: e)
qed

lemma exponent_lt1:
  fixes t :: rat
  assumes "t \<noteq> 0" "\<bar>t\<bar> < 1"
  shows "2 powi (exponent t - 1) \<le> \<bar>t\<bar>" and "\<bar>t\<bar> < 2 powi exponent t"
proof -
  define u where "u = 1 / \<bar>t\<bar>"
  define m where "m = \<lceil>u\<rceil> - 1"
  define b where "b = bitlen m"
  have tpos: "0 < \<bar>t\<bar>" using assms by simp
  have u1: "1 < u" using assms tpos by (simp add: u_def)
  have m: "0 < m" using u1 unfolding m_def by linarith
  have e: "exponent t = 1 - b" using assms by (auto simp: exponent_def m_def b_def u_def)
  have b1: "1 \<le> b" using m bitlen_eq_zero_iff[of m] bitlen_nonneg[of m] by (simp add: b_def)
  from bitlen_bounds[OF m] have lo: "2 ^ nat (b - 1) \<le> m" and hi: "m < 2 ^ nat b"
    by (simp_all add: b_def)
  have mu: "of_int m < u" unfolding m_def by linarith
  have um: "u \<le> of_int (m + 1)" unfolding m_def by linarith
  have "(2::rat) ^ nat (b - 1) \<le> of_int m" using lo by simp
  with mu have A: "(2::rat) ^ nat (b - 1) < u" by linarith
  have "m + 1 \<le> 2 ^ nat b" using hi by simp
  then have "(of_int (m + 1) :: rat) \<le> 2 ^ nat b"
    by (simp only: of_int_le_numeral_power_cancel_iff)
  with um have B: "u \<le> (2::rat) ^ nat b" by linarith
  have p1: "(2::rat) powi (1 - b) = 1 / 2 ^ nat (b - 1)"
    using b1 by (auto simp: power_int_def field_simps nat_diff_distrib)
  have p2: "(2::rat) powi (1 - b - 1) = 1 / 2 ^ nat b"
    using b1 by (auto simp: power_int_def field_simps)
  have t: "\<bar>t\<bar> = 1 / u" by (simp add: u_def)
  have upos: "0 < u" using u1 by simp
  show "2 powi (exponent t - 1) \<le> \<bar>t\<bar>"
    unfolding e p2 t using B upos by (simp add: frac_le)
  show "\<bar>t\<bar> < 2 powi exponent t"
    unfolding e p1 t using A upos by (simp add: frac_less2)
qed

lemma exponent_bounds:
  fixes t :: rat
  assumes "t \<noteq> 0"
  shows "2 powi (exponent t - 1) \<le> \<bar>t\<bar>" and "\<bar>t\<bar> < 2 powi exponent t"
  using assms exponent_ge1[of t] exponent_lt1[of t] by (cases "1 \<le> \<bar>t\<bar>"; simp)+



lemma rhe_error: "\<bar>of_int (round_half_even q) - q\<bar> \<le> 1 / 2"
proof -
  have "of_int \<lfloor>q\<rfloor> \<le> q" "q < of_int \<lfloor>q\<rfloor> + 1" by linarith+
  then show ?thesis
    by (auto simp: round_half_even_def Let_def abs_le_iff)
qed

lemma rhe_of_int [simp]: "round_half_even (of_int n) = n"
  by (simp add: round_half_even_def)



lemma rhe_zero [simp]: "round_half_even 0 = 0"
  by (simp add: round_half_even_def)

lemma round_prec_zero [simp]: "round_prec p 0 = 0"
  by (simp add: round_prec_def)

lemma exponent_uminus [simp]: "exponent (- t) = exponent t"
  by (simp add: exponent_def)










lemma round_prec_rel_error: "\<bar>round_prec p t - t\<bar> \<le> \<bar>t\<bar> / 2 ^ p"
proof (cases "t = 0")
  case False
  let ?e = "exponent t"
  let ?s = "(2::rat) powi (int p - ?e)"
  let ?m = "of_int (round_half_even (t * ?s)) :: rat"
  have s: "0 < ?s" by simp
  have "round_prec p t - t = (?m - t * ?s) / ?s"
    using s by (simp add: round_prec_def Let_def field_simps)
  then have "\<bar>round_prec p t - t\<bar> = \<bar>?m - t * ?s\<bar> / ?s"
    using s by (simp add: abs_divide)
  also have "\<dots> \<le> (1 / 2) / ?s" by (intro divide_right_mono rhe_error) simp
  also have "(1 / 2) / ?s = 2 powi (?e - 1) / 2 ^ p"
  proof -
    define E where "E = (2::rat) powi ?e"
    have E: "0 < E" by (simp add: E_def)
    have a: "(2::rat) powi (?e - 1) = E / 2" by (simp add: power_int_diff E_def)
    have b: "?s = 2 ^ p / E" by (simp add: power_int_diff E_def)
    show ?thesis unfolding a b using E by simp
  qed
  also have "\<dots> \<le> \<bar>t\<bar> / 2 ^ p"
    using exponent_bounds(1)[OF False] by (simp add: divide_right_mono)
  finally show ?thesis .
qed simp

lemma at_prec_simps [simp]:
  "rnd (at_prec c p) = rounding c p"
  "FloatPrec (at_prec c p) = p"
  "rounding (at_prec c p) = rounding c"
  "floatPi (at_prec c p) = floatPi c"
  "at_prec c (FloatPrec c) = c"
  by (simp_all add: at_prec_def rnd_def)

lemma float_ctx_simps [simp]:
  "rnd (float_ctx p limit) = round_prec p"
  "rounding (float_ctx p limit) = round_prec"
  "FloatPrec (float_ctx p limit) = p"
  "newLoop (float_ctx p limit) = spec_newLoop"
  "terminate (float_ctx p limit) = spec_terminate p limit"
  by (simp_all add: float_ctx_def rnd_def)


lemma float_ctx_rel_error: "rel_error (float_ctx p limit) (1 / 2 ^ p)"
  using round_prec_rel_error[of p] by (simp add: rel_error_def)

section \<open>Properties of the square root\<close>

text \<open>
  C7. The square root of an input that is exactly zero is exactly zero, and no Newton
  iteration runs: the result is there whatever the loop controller would do.
\<close>

theorem floatSqrt_zero: "floatSqrt c xprec (Finite 0) = ret (Finite 0)"
  by (simp add: floatSqrt_def newF_def)

text \<open>
  C6. For every negative input, finite or \<open>-Inf\<close>, the square root fails with the domain
  error "square root of negative number". No iteration runs before the failure: the
  outcome is the same for every loop controller, also one that would never stop.
\<close>

theorem floatSqrt_negative:
  "Sign x = - 1 \<Longrightarrow>
   floatSqrt c xprec x = Some (Inl (Error ''square root of negative number''))"
  by (simp add: floatSqrt_def Errorf_def raise_def)

theorem floatSqrt_negative_witness:
  "Sign (Finite (- 4)) = - 1 \<and>
   floatSqrt (float_ctx 12 40) 12 (Finite (- 4)) =
     Some (Inl (Error ''square root of negative number''))"
  using floatSqrt_negative [of "Finite (- 4)" "float_ctx 12 40" 12] by simp

section \<open>Properties of the arctangent\<close>

text \<open>
  C1, as amended. For a non-negative input \<open>x\<close> whose difference \<open>1 - x\<close>, rounded to
  the working precision, compares below \<open>0.5\<close> in absolute value, the arctangent is
  \<open>\<pi>/8 + atan((x' - y)/(1 + x' y))\<close> with \<open>y = \<surd>2 - 1\<close> and \<open>x'\<close> the copy of \<open>x\<close> at
  the working precision: the square root of two is taken, \<open>y\<close>, the numerator, the
  denominator and their quotient are formed at the working precision, the function calls
  itself on the quotient and adds \<open>\<pi>/8\<close>. Neither series is summed for \<open>x\<close> itself.
\<close>

theorem floatAtan_near_one:
  assumes "0 \<le> Sign x"
    and "fSub c floatOne x = ret tmp"
    and "Cmp (fAbs tmp) (Finite (1 / 2)) < 0"
  shows "floatAtan c x =
     rbind (floatSqrt c (FloatPrec c) floatTwo) (\<lambda>s.
     rbind (fSub c s floatOne) (\<lambda>y.
     rbind (fSub c (fSet c x) y) (\<lambda>num.
     rbind (fMul c (fSet c x) y) (\<lambda>xy.
     rbind (fAdd c xy floatOne) (\<lambda>den.
     rbind (fQuo c num den) (\<lambda>q.
     rbind (floatAtan c q) (\<lambda>r.
     fAdd c (round_to c (floatPi c / 8)) r)))))))"
  using assms by (subst floatAtan.simps) simp

lemma eval_euler_one:
  "rbind (floatSqrt (float_ctx 8 40) 8 floatTwo) (\<lambda>s.
   rbind (fSub (float_ctx 8 40) s floatOne) (\<lambda>y.
   rbind (fSub (float_ctx 8 40) (Finite 1) y) (\<lambda>num.
   rbind (fMul (float_ctx 8 40) (Finite 1) y) (\<lambda>xy.
   rbind (fAdd (float_ctx 8 40) xy floatOne) (\<lambda>den.
   rbind (fQuo (float_ctx 8 40) num den) (\<lambda>q.
   rbind (floatAtan (float_ctx 8 40) q) (\<lambda>r.
   fAdd (float_ctx 8 40) (round_to (float_ctx 8 40) (floatPi (float_ctx 8 40) / 8)) r)))))))
   = ret (Finite (25 / 32))"
  by code_simp

lemma round_prec_8_one: "round_prec 8 1 = 1"
  by code_simp

theorem floatAtan_near_one_witness:
  "0 \<le> Sign (Finite 1) \<and>
   fSub (float_ctx 8 40) floatOne (Finite 1) = ret (Finite 0) \<and>
   Cmp (fAbs (Finite 0)) (Finite (1 / 2)) < 0 \<and>
   floatAtan (float_ctx 8 40) (Finite 1) = ret (Finite (25 / 32))"
proof -
  have h1: "0 \<le> Sign (Finite 1)" by simp
  have h2: "fSub (float_ctx 8 40) floatOne (Finite 1) = ret (Finite 0)"
    by (simp add: floatOne_def)
  have h3: "Cmp (fAbs (Finite 0)) (Finite (1 / 2)) < 0" by simp
  have s: "round_to (float_ctx 8 40) 1 = Finite 1"
    by (simp add: round_to_def round_prec_8_one)
  from floatAtan_near_one [OF h1 h2 h3] eval_euler_one h1 h2 h3 show ?thesis
    by (simp add: s)
qed

text \<open>
  The test is on the rounded difference, not on \<open>|1 - x|\<close> itself. At a working
  precision of 8 bits the float \<open>x = 513/1024\<close> has \<open>|1 - x| = 511/1024 < 0.5\<close>, but
  the difference rounds to \<open>1/2\<close>: the activation makes no self-call and sums the
  series for \<open>x\<close>, and its result is not the one of the Euler rewrite.
\<close>

lemma eval_sub_near_half:
  "round_to (float_ctx 8 40) (511 / 1024) = Finite (1 / 2)"
  by code_simp

lemma eval_series_near_half:
  "floatAtan_series (float_ctx 8 40) (Finite (513 / 1024)) = ret (Finite (237 / 512))"
  by code_simp

lemma eval_euler_near_half:
  "rbind (floatSqrt (float_ctx 8 40) 8 floatTwo) (\<lambda>s.
   rbind (fSub (float_ctx 8 40) s floatOne) (\<lambda>y.
   rbind (fSub (float_ctx 8 40) (Finite (513 / 1024)) y) (\<lambda>num.
   rbind (fMul (float_ctx 8 40) (Finite (513 / 1024)) y) (\<lambda>xy.
   rbind (fAdd (float_ctx 8 40) xy floatOne) (\<lambda>den.
   rbind (fQuo (float_ctx 8 40) num den) (\<lambda>q.
   rbind (floatAtan (float_ctx 8 40) q) (\<lambda>r.
   fAdd (float_ctx 8 40) (round_to (float_ctx 8 40) (floatPi (float_ctx 8 40) / 8)) r)))))))
   = ret (Finite (119 / 256))"
  by code_simp

theorem floatAtan_near_one_counterexample:
  "0 \<le> Sign (Finite (513 / 1024)) \<and> \<bar>1 - 513 / 1024\<bar> < (1 / 2 :: rat) \<and>
   floatAtan_step (float_ctx 8 40) (Finite (513 / 1024)) =
     Done (floatAtan_series (float_ctx 8 40) (Finite (513 / 1024))) \<and>
   floatAtan (float_ctx 8 40) (Finite (513 / 1024)) = ret (Finite (237 / 512)) \<and>
   floatAtan (float_ctx 8 40) (Finite (513 / 1024)) \<noteq>
     rbind (floatSqrt (float_ctx 8 40) 8 floatTwo) (\<lambda>s.
     rbind (fSub (float_ctx 8 40) s floatOne) (\<lambda>y.
     rbind (fSub (float_ctx 8 40) (Finite (513 / 1024)) y) (\<lambda>num.
     rbind (fMul (float_ctx 8 40) (Finite (513 / 1024)) y) (\<lambda>xy.
     rbind (fAdd (float_ctx 8 40) xy floatOne) (\<lambda>den.
     rbind (fQuo (float_ctx 8 40) num den) (\<lambda>q.
     rbind (floatAtan (float_ctx 8 40) q) (\<lambda>r.
     fAdd (float_ctx 8 40) (round_to (float_ctx 8 40) (floatPi (float_ctx 8 40) / 8)) r)))))))"
proof -
  have step: "floatAtan_step (float_ctx 8 40) (Finite (513 / 1024)) =
      Done (floatAtan_series (float_ctx 8 40) (Finite (513 / 1024)))"
    by (simp add: floatAtan_step_def eval_sub_near_half floatOne_def on_value_def ret_def)
  have run: "floatAtan (float_ctx 8 40) (Finite (513 / 1024)) = ret (Finite (237 / 512))"
    by (subst floatAtan.simps) (simp add: eval_sub_near_half eval_series_near_half floatOne_def)
  show ?thesis
    unfolding eval_euler_near_half run by (simp add: step)
qed


lemma floatAtan_loop_zero:
  assumes "floatAtan_loop c two xSquared loop n xN z is_plus = Some y"
  shows "xSquared = Finite 0 \<longrightarrow> xN = Finite 0 \<longrightarrow> z = Finite 0 \<longrightarrow> (\<forall>r. y = Inr r \<longrightarrow> r = Finite 0)"
proof (rule floatAtan_loop.raw_induct
    [where P = "\<lambda>c two xSquared loop n xN z is_plus y.
       xSquared = Finite 0 \<longrightarrow> xN = Finite 0 \<longrightarrow> z = Finite 0 \<longrightarrow> (\<forall>r. y = Inr r \<longrightarrow> r = Finite 0)",
     OF _ assms], goal_cases)
  case (1 f c two xSquared loop n xN z is_plus y)
  show ?case
  proof (intro impI allI)
    fix r
    assume xs: "xSquared = Finite 0" and xn: "xN = Finite 0" and z: "z = Finite 0"
      and y: "y = Inr r"
    from 1(2) show "r = Finite 0"
    proof (cases rule: rbind_eq_SomeD)
      case (err e)
      with y show ?thesis by simp
    next
      case (val tm)
      from val(1) xn have t: "tm = Finite 0" by (auto dest: fQuo_zero_num)
      have z': "(if is_plus then fAdd c z tm else fSub c z tm) = Some (Inr (Finite 0))"
        by (simp add: t z ret_def)
      from val(2) show ?thesis
        unfolding z' rbind_Some_Inr Let_def
      proof (cases rule: rbind_eq_SomeD)
        case (err e)
        with y show ?thesis by simp
      next
        case (val sl)
        obtain stop l' where sl: "sl = (stop, l')" by (cases sl)
        show ?thesis
        proof (cases stop)
          case True
          with val(2) sl y show ?thesis by (simp add: ret_def)
        next
          case False
          with val(2) sl have "rbind (fAdd c n two) (\<lambda>n. rbind (fMul c xN xSquared) (\<lambda>xN.
              f c two xSquared l' n xN (Finite 0) (\<not> is_plus))) = Some y"
            by simp
          then show ?thesis
          proof (cases rule: rbind_eq_SomeD)
            case (err e)
            with y show ?thesis by simp
          next
            case (val n')
            from val(2) xs xn have "f c two (Finite 0) l' n' (Finite 0) (Finite 0) (\<not> is_plus) = Some y"
              by (simp add: ret_def)
            from 1(1)[OF this] y show ?thesis by simp
          qed
        qed
      qed
    qed
  qed
qed


lemma representable_fSet: "representable c x \<Longrightarrow> fSet c x = x"
  by (simp add: representable_def)

lemma representable_fNeg: "representable c x \<Longrightarrow> representable c (fNeg x)"
  by (simp add: representable_def)

text \<open>
  C2, as amended. Sign symmetry for the floats of the working precision: for every such
  \<open>x\<close>, \<open>atan(-x)\<close> is \<open>-atan(x)\<close> exactly. Either both calls return, with results that
  are each other's negation, or both fail with the same error, or neither returns. The
  float one is taken to have the working precision, which the case \<open>x = 0\<close> needs to
  reach the series.
\<close>

theorem floatAtan_odd:
  assumes "representable c x" and "rnd c 1 = 1"
  shows "floatAtan c (fNeg x) = rbind (floatAtan c x) (\<lambda>z. ret (fNeg z))"
proof -
  have sx: "fSet c x = x" and sn: "fSet c (fNeg x) = fNeg x"
    using assms(1) by (simp_all add: representable_def)
  consider (neg) "Sign x < 0" | (pos) "0 < Sign x" | (zero) "x = Finite 0"
    using Sign_cases[of x] by blast
  then show ?thesis
  proof cases
    case neg
    have "floatAtan c x = rbind (floatAtan c (fNeg x)) (\<lambda>z. ret (fNeg z))"
      using neg by (subst floatAtan.simps) (simp add: sx)
    then show ?thesis by (simp add: rbind_fNeg_fNeg)
  next
    case pos
    then have "Sign (fNeg x) < 0" by simp
    then show ?thesis by (subst floatAtan.simps) (simp add: sn)
  next
    case zero
    have series: "floatAtan c (Finite 0) = floatAtan_series c (Finite 0)"
      using assms(2) by (subst floatAtan.simps) (simp add: floatOne_def round_to_def ret_def)
    have "rbind (floatAtan c (Finite 0)) (\<lambda>z. ret (fNeg z)) = floatAtan c (Finite 0)"
    proof (cases "floatAtan c (Finite 0)")
      case None
      then show ?thesis by simp
    next
      case (Some y)
      show ?thesis
      proof (cases y)
        case (Inl e)
        with Some show ?thesis by simp
      next
        case (Inr r)
        from Some have "floatAtan_loop c (Finite 2) (Finite 0) (newLoop c ''atan'' (Finite 0) 4)
            floatOne (Finite 0) (Finite 0) True = Some y"
          unfolding series by (simp add: floatAtan_series_def newF_def ret_def)
        from floatAtan_loop_zero[OF this] Inr have "r = Finite 0" by simp
        with Some Inr show ?thesis by (simp add: ret_def)
      qed
    qed
    with zero show ?thesis by simp
  qed
qed

lemma round_prec_8_quarter: "round_prec 8 (1 / 4) = 1 / 4" "round_prec 8 (- (1 / 4)) = - (1 / 4)"
  by code_simp+

lemma eval_atan_quarter:
  "floatAtan (float_ctx 8 40) (Finite (1 / 4)) = ret (Finite (251 / 1024))"
  by code_simp

theorem floatAtan_odd_witness:
  "representable (float_ctx 8 40) (Finite (1 / 4)) \<and> rnd (float_ctx 8 40) 1 = 1 \<and>
   floatAtan (float_ctx 8 40) (Finite (- (1 / 4))) = ret (Finite (- (251 / 1024))) \<and>
   floatAtan (float_ctx 8 40) (Finite (1 / 4)) = ret (Finite (251 / 1024))"
proof -
  have h1: "representable (float_ctx 8 40) (Finite (1 / 4))"
    by (simp add: representable_def round_to_def round_prec_8_quarter)
  have h2: "rnd (float_ctx 8 40) 1 = 1" by (simp add: round_prec_8_one)
  from floatAtan_odd [OF h1 h2] eval_atan_quarter h1 h2 show ?thesis by simp
qed

text \<open>
  A float with more bits than the working precision breaks the symmetry: the negative
  branch copies \<open>x\<close> to a float of the working precision before it negates it, while a
  non-negative \<open>x\<close> enters the tests and the square \<open>x\<^sup>2\<close> as it is. At 8 bits and
  \<open>x = 1123/4096\<close> the two results differ.
\<close>

lemma eval_atan_off_neg:
  "floatAtan (float_ctx 8 40) (Finite (- (1123 / 4096))) = ret (Finite (- (137 / 512)))"
  by code_simp

lemma eval_atan_off_pos:
  "floatAtan (float_ctx 8 40) (Finite (1123 / 4096)) = ret (Finite (17 / 64))"
  by code_simp

theorem floatAtan_odd_counterexample:
  "floatAtan (float_ctx 8 40) (fNeg (Finite (1123 / 4096))) \<noteq>
     rbind (floatAtan (float_ctx 8 40) (Finite (1123 / 4096))) (\<lambda>z. ret (fNeg z)) \<and>
   floatAtan (float_ctx 8 40) (Finite (- (1123 / 4096))) = ret (Finite (- (137 / 512))) \<and>
   floatAtan (float_ctx 8 40) (Finite (1123 / 4096)) = ret (Finite (17 / 64))"
  by (simp add: eval_atan_off_neg eval_atan_off_pos)

section \<open>Properties of arcsine and arccosine\<close>

text \<open>
  C4. At the boundaries of the domain the arcsine is a special case: \<open>asin(1)\<close> is the
  quotient of the constant \<open>\<pi>\<close> by two at the working precision, and \<open>asin(-1)\<close> is its
  negation. Neither the square root nor the arctangent is called: the results do not
  depend on the loop controller.
\<close>

theorem floatAsin_boundary:
  "floatAsin c (Finite 1) = ret (round_to c (floatPi c / 2)) \<and>
   floatAsin c (Finite (- 1)) = ret (fNeg (round_to c (floatPi c / 2)))"
  by (simp add: floatAsin_def floatOne_def floatMinusOne_def floatTwo_def)

text \<open>
  C5. For every input, \<open>acos(x)\<close> is \<open>\<pi>/2 - asin(x)\<close> formed at the working precision:
  the outcome of the arcsine, error or not, decides the outcome of the arccosine. When
  the arcsine returns a finite \<open>a\<close>, the arccosine returns a finite \<open>r\<close> with \<open>r + a\<close>
  within the rounding error of one subtraction of the rounded \<open>\<pi>/2\<close>.
\<close>

theorem floatAcos_complement:
  assumes "rel_error c eps"
  shows "floatAcos c x = rbind (floatAsin c x) (\<lambda>a. fSub c (round_to c (floatPi c / 2)) a) \<and>
    (\<forall>a. floatAsin c x = ret (Finite a) \<longrightarrow>
      (\<exists>h r. round_to c (floatPi c / 2) = Finite h \<and> floatAcos c x = ret (Finite r) \<and>
        \<bar>(r + a) - h\<bar> \<le> eps * \<bar>h - a\<bar>))"
proof (intro conjI allI impI)
  show eq: "floatAcos c x = rbind (floatAsin c x) (\<lambda>a. fSub c (round_to c (floatPi c / 2)) a)"
    by (simp add: floatAcos_def)
  fix a assume a: "floatAsin c x = ret (Finite a)"
  obtain h where h: "round_to c (floatPi c / 2) = Finite h" using round_to_Finite by blast
  obtain r where r: "round_to c (h - a) = Finite r" using round_to_Finite by blast
  have "floatAcos c x = ret (Finite r)" by (simp add: eq a h r)
  moreover have "\<bar>(r + a) - h\<bar> \<le> eps * \<bar>h - a\<bar>"
    using round_to_error[OF assms r] by (simp add: algebra_simps)
  ultimately show "\<exists>h r. round_to c (floatPi c / 2) = Finite h \<and> floatAcos c x = ret (Finite r) \<and>
        \<bar>(r + a) - h\<bar> \<le> eps * \<bar>h - a\<bar>"
    using h by blast
qed


lemma eval_asin_half:
  "floatAsin (float_ctx 8 40) (Finite (1 / 2)) = ret (Finite (67 / 128))"
  by code_simp

lemma eval_acos_sub:
  "fSub (float_ctx 8 40) (round_to (float_ctx 8 40) (floatPi (float_ctx 8 40) / 2))
     (Finite (67 / 128)) = ret (Finite (67 / 64))"
  by code_simp

lemma eval_half_pi: "round_to (float_ctx 8 40) (floatPi (float_ctx 8 40) / 2) = Finite (201 / 128)"
  by code_simp

theorem floatAcos_complement_witness:
  "rel_error (float_ctx 8 40) (1 / 2 ^ 8) \<and>
   floatAsin (float_ctx 8 40) (Finite (1 / 2)) = ret (Finite (67 / 128)) \<and>
   floatAcos (float_ctx 8 40) (Finite (1 / 2)) = ret (Finite (67 / 64)) \<and>
   \<bar>(67 / 64 + 67 / 128) - 201 / 128\<bar> \<le> (1 / 2 ^ 8) * \<bar>201 / 128 - 67 / 128 :: rat\<bar>"
proof -
  have h: "rel_error (float_ctx 8 40) (1 / 2 ^ 8)" by (rule float_ctx_rel_error)
  from floatAcos_complement [OF h, of "Finite (1 / 2)"]
  have "floatAcos (float_ctx 8 40) (Finite (1 / 2)) =
      rbind (floatAsin (float_ctx 8 40) (Finite (1 / 2)))
        (\<lambda>a. fSub (float_ctx 8 40) (round_to (float_ctx 8 40) (floatPi (float_ctx 8 40) / 2)) a)"
    by (rule conjunct1)
  then have "floatAcos (float_ctx 8 40) (Finite (1 / 2)) = ret (Finite (67 / 64))"
    by (simp only: eval_asin_half rbind_ret eval_acos_sub)
  with h eval_asin_half show ?thesis by simp
qed









section \<open>The depth of the arctangent's recursion\<close>

lemma run_simps [simp]:
  "run self (Done r) = r"
  "run self (Call a k) = rbind (self a) k"
  "run self (if b then s else t) = (if b then run self s else run self t)"
  by (simp_all add: run_def)

lemma run_on_value [simp]: "run self (on_value m f) = rbind m (\<lambda>v. run self (f v))"
  by (cases m) (auto simp: on_value_def rbind_def run_def split: sum.splits)

lemma floatAtan_unfold: "floatAtan c x = run (floatAtan c) (floatAtan_step c x)"
  by (subst floatAtan.simps) (simp add: floatAtan_step_def Let_def cong: if_cong)

lemma floatAtan_limited_sound:
  "floatAtan_limited d c x = Some r \<Longrightarrow> floatAtan c x = r"
proof (induction d arbitrary: x r)
  case 0
  then show ?case by (subst floatAtan_unfold) (simp add: run_def split: step.splits)
next
  case (Suc d)
  then show ?case by (subst floatAtan_unfold) (auto simp: run_def split: step.splits)
qed

lemma floatAtan_limited_mono:
  "floatAtan_limited d c x = Some r \<Longrightarrow> floatAtan_limited (Suc d) c x = Some r"
proof (induction d arbitrary: x r)
  case 0
  then show ?case by (simp split: step.splits)
next
  case (Suc d)
  show ?case
  proof (cases "floatAtan_step c x")
    case (Done r')
    with Suc.prems show ?thesis by simp
  next
    case (Call a k)
    with Suc.prems obtain r' where r': "floatAtan_limited d c a = Some r'" "r = rbind r' k"
      by auto
    from Suc.IH[OF r'(1)] Call r'(2) show ?thesis by simp
  qed
qed

lemma round_to_rnd0: "round_to c t = Finite (rnd0 c t)"
  by (simp add: round_to_def rnd0_def)

lemma rnd0_error:
  assumes "rel_error c eps"
  shows "\<bar>rnd0 c t - t\<bar> \<le> eps * \<bar>t\<bar>"
  using assms by (simp add: rnd0_def rel_error_def)

lemma rnd0_pos:
  assumes "rel_error c (1 / 64)" "0 \<le> t"
  shows "63 / 64 * t \<le> rnd0 c t" and "rnd0 c t \<le> 65 / 64 * t"
  using rnd0_error[OF assms(1), of t] assms(2) by linarith+

lemma rnd0_pos_int:
  assumes "rel_error c (1 / 64)" "0 \<le> t"
  shows "63 * t \<le> 64 * rnd0 c t" and "64 * rnd0 c t \<le> 65 * t"
  using rnd0_pos[OF assms] by simp_all

lemma rnd0_abs_lower:
  assumes "rel_error c (1 / 64)"
  shows "63 / 64 * \<bar>t\<bar> \<le> \<bar>rnd0 c t\<bar>"
  using rnd0_error[OF assms, of t] by linarith

lemma euler_arith:
  fixes x y a b d q :: rat
  assumes y: "63 / 160 \<le> y" "y \<le> 117 / 256"
    and x: "31 / 64 \<le> x" "x \<le> 6175 / 4032"
    and a: "63 / 64 * (x - y) \<le> a" "a \<le> 65 / 64 * (x - y)"
    and b: "63 / 64 * (x * y) \<le> b"
    and d: "63 / 64 * (b + 1) \<le> d"
    and q: "63 / 64 * (a / d) \<le> q" "q \<le> 65 / 64 * (a / d)"
  shows "0 < d" and "0 < q" and "q \<le> 3 / 4" and "x \<le> 195 / 256 \<Longrightarrow> q \<le> 3 / 10"
proof -
  have xy: "63 / 160 * x \<le> x * y" using y(1) x(1) by (simp add: mult_left_mono mult.commute)
  define D where "D = 63 / 64 * (1 + 63 / 64 * (63 / 160 * x))"
  define A where "A = 65 / 64 * (x - 63 / 160)"
  have b': "63 / 64 * (63 / 160 * x) \<le> b" using b xy by linarith
  have Dd: "D \<le> d" using d b' by (simp add: D_def)
  have Dpos: "0 < D" using x(1) by (simp add: D_def)
  show dpos: "0 < d" using Dd Dpos by linarith
  have "0 < x - y" using x(1) y(2) by simp
  then have "0 < 63 / 64 * (x - y)" by simp
  then have apos: "0 < a" using a(1) by (rule less_le_trans)
  have aA: "a \<le> A" using a(2) y(1) by (simp add: A_def)
  have "0 < a / d" using apos dpos by simp
  with q(1) show "0 < q" by linarith
  have "a / d \<le> A / D" using apos aA Dpos Dd by (intro frac_le) simp_all
  with q(2) have qAD: "q \<le> 65 / 64 * (A / D)" by linarith
  have "65 / 64 * A \<le> 3 / 4 * D" using x(2) by (simp add: A_def D_def)
  then have "65 / 64 * (A / D) \<le> 3 / 4" using Dpos by (simp add: field_simps)
  with qAD show "q \<le> 3 / 4" by linarith
  assume "x \<le> 195 / 256"
  then have "65 / 64 * A \<le> 3 / 10 * D" by (simp add: A_def D_def)
  then have "65 / 64 * (A / D) \<le> 3 / 10" using Dpos by (simp add: field_simps)
  with qAD show "q \<le> 3 / 10" by linarith
qed


lemma on_value_ret [simp]: "on_value (ret v) f = f v"
  by (simp add: on_value_def ret_def)

lemma on_value_Done:
  "(\<And>v. m = ret v \<Longrightarrow> \<exists>r. f v = Done r) \<Longrightarrow> \<exists>r. on_value m f = Done r"
  by (cases m) (auto simp: on_value_def ret_def split: sum.splits)

lemma step_neg:
  "Sign x < 0 \<Longrightarrow> floatAtan_step c x = Call (fNeg (fSet c x)) (\<lambda>z. ret (fNeg z))"
  by (simp add: floatAtan_step_def)

lemma step_inf: "\<exists>r. floatAtan_step c (Infinite False) = Done r"
  by (simp add: floatAtan_step_def floatOne_def)

lemma step_small:
  assumes "rel_error c (1 / 64)" "0 \<le> t" "t \<le> 3 / 10"
  shows "\<exists>r. floatAtan_step c (Finite t) = Done r"
proof -
  have "63 / 64 * \<bar>1 - t\<bar> \<le> \<bar>rnd0 c (1 - t)\<bar>" by (rule rnd0_abs_lower[OF assms(1)])
  with assms(2,3) have "\<not> \<bar>rnd0 c (1 - t)\<bar> < 1 / 2"
    by (auto simp: abs_if split: if_splits)
  with assms(2) show ?thesis
    by (simp add: floatAtan_step_def floatOne_def round_to_rnd0)
qed

lemma step_nonneg:
  assumes re: "rel_error c (1 / 64)" and sq: "sqrt_two_within c (7 / 5) (29 / 20)" and t: "0 \<le> t"
  shows "(\<exists>r. floatAtan_step c (Finite t) = Done r) \<or>
    (\<exists>q k. floatAtan_step c (Finite t) = Call (Finite q) k \<and> 0 < q \<and> q \<le> 3 / 4 \<and>
       (t \<le> 3 / 4 \<longrightarrow> q \<le> 3 / 10))"
proof (cases "\<bar>rnd0 c (1 - t)\<bar> < 1 / 2")
  case False
  with t show ?thesis by (simp add: floatAtan_step_def floatOne_def round_to_rnd0)
next
  case True
  have "63 / 64 * \<bar>1 - t\<bar> \<le> \<bar>rnd0 c (1 - t)\<bar>" by (rule rnd0_abs_lower[OF re])
  with True have x: "31 / 63 < t" "t < 95 / 63"
    by (auto simp: abs_if split: if_splits)
  let ?rest = "\<lambda>z y.
          on_value (fSub c y floatOne) (\<lambda>y.
          on_value (fSub c (fSet c (Finite t)) y) (\<lambda>num.
          on_value (fMul c (fSet c (Finite t)) y) (\<lambda>den.
          on_value (fAdd c den floatOne) (\<lambda>den.
          on_value (fQuo c num den) (\<lambda>num.
          Call num (\<lambda>r. fAdd c z r))))))"
  have step: "floatAtan_step c (Finite t) =
      on_value (floatSqrt c (FloatPrec c) floatTwo) (?rest (round_to c (floatPi c / 8)))"
    using t True by (simp add: floatAtan_step_def floatOne_def round_to_rnd0)
  show ?thesis
  proof (cases "\<exists>s. floatSqrt c (FloatPrec c) floatTwo = ret s")
    case False
    then have "\<exists>r. floatAtan_step c (Finite t) = Done r"
      unfolding step by (intro on_value_Done) blast
    then show ?thesis by blast
  next
    case True
    then obtain s where s: "floatSqrt c (FloatPrec c) floatTwo = ret s" by blast
    with sq obtain st where st: "s = Finite st" "7 / 5 \<le> st" "st \<le> 29 / 20"
      by (auto simp: sqrt_two_within_def)
    define t' where "t' = rnd0 c t"
    define y where "y = rnd0 c (st - 1)"
    define a where "a = rnd0 c (t' - y)"
    define b where "b = rnd0 c (t' * y)"
    define d where "d = rnd0 c (b + 1)"
    define q where "q = rnd0 c (a / d)"
    have s1: "0 \<le> st - 1" using st(2) by simp
    have y: "63 / 160 \<le> y" "y \<le> 117 / 256"
      using rnd0_pos_int[OF re s1] st(2,3) unfolding y_def by simp_all
    have x': "31 / 64 \<le> t'" "t' \<le> 6175 / 4032"
      using rnd0_pos_int[OF re t] x unfolding t'_def by simp_all
    have tt: "t \<le> 3 / 4 \<Longrightarrow> t' \<le> 195 / 256"
      using rnd0_pos_int(2)[OF re t] unfolding t'_def by simp
    have ty: "0 \<le> t' - y" "0 \<le> t' * y" using x'(1) y by simp_all
    have a: "63 / 64 * (t' - y) \<le> a" "a \<le> 65 / 64 * (t' - y)"
      unfolding a_def using rnd0_pos[OF re ty(1)] by simp_all
    have b: "63 / 64 * (t' * y) \<le> b" unfolding b_def using rnd0_pos(1)[OF re ty(2)] by simp
    have "0 \<le> 63 / 64 * (t' * y)" using ty(2) by simp
    then have bnn: "0 \<le> b" using b by (rule order_trans)
    then have b0: "0 \<le> b + 1" by simp
    have d: "63 / 64 * (b + 1) \<le> d" unfolding d_def using rnd0_pos(1)[OF re b0] by simp
    have "0 < 63 / 64 * (b + 1)" using bnn by (simp add: add_nonneg_pos)
    then have dpos: "0 < d" using d by (rule less_le_trans)
    have "0 \<le> 63 / 64 * (t' - y)" using ty(1) by simp
    then have apos: "0 \<le> a" using a(1) by (rule order_trans)
    have ad: "0 \<le> a / d" using apos dpos by simp
    have q: "63 / 64 * (a / d) \<le> q" "q \<le> 65 / 64 * (a / d)"
      unfolding q_def using rnd0_pos[OF re ad] by simp_all
    note E = euler_arith[OF y x' a b d q]
    have "floatAtan_step c (Finite t) =
        Call (Finite q) (\<lambda>r. fAdd c (round_to c (floatPi c / 8)) r)"
      unfolding step s using dpos
      by (simp add: st(1) floatOne_def round_to_rnd0 t'_def y_def a_def b_def d_def q_def)
    with E(2,3) E(4)[OF tt] show ?thesis by blast
  qed
qed

lemma limited0_small:
  assumes "rel_error c (1 / 64)" "0 \<le> t" "t \<le> 3 / 10"
  shows "\<exists>r. floatAtan_limited 0 c (Finite t) = Some r"
  using step_small[OF assms] by auto

lemma limited1_mid:
  assumes re: "rel_error c (1 / 64)" and sq: "sqrt_two_within c (7 / 5) (29 / 20)"
    and t: "0 \<le> t" "t \<le> 3 / 4"
  shows "\<exists>r. floatAtan_limited (Suc 0) c (Finite t) = Some r"
  using step_nonneg[OF re sq t(1)]
proof (elim disjE exE conjE)
  fix q k
  assume "floatAtan_step c (Finite t) = Call (Finite q) k" "0 < q" "t \<le> 3 / 4 \<longrightarrow> q \<le> 3 / 10"
  with t(2) limited0_small[OF re, of q] show ?thesis by auto
qed auto

lemma limited2_nonneg:
  assumes re: "rel_error c (1 / 64)" and sq: "sqrt_two_within c (7 / 5) (29 / 20)"
    and x: "0 \<le> Sign x"
  shows "\<exists>r. floatAtan_limited (Suc (Suc 0)) c x = Some r"
proof (cases x)
  case (Finite t)
  with x have t: "0 \<le> t" by (simp split: if_splits)
  from step_nonneg[OF re sq t] show ?thesis
  proof (elim disjE exE conjE)
    fix q k
    assume "floatAtan_step c (Finite t) = Call (Finite q) k" "0 < q" "q \<le> 3 / 4"
    with limited1_mid[OF re sq, of q] Finite show ?thesis by auto
  qed (auto simp: Finite)
next
  case (Infinite neg)
  with x have "x = Infinite False" by (simp split: if_splits)
  with step_inf[of c] show ?thesis by auto
qed

lemma limited3_all:
  assumes re: "rel_error c (1 / 64)" and sq: "sqrt_two_within c (7 / 5) (29 / 20)"
  shows "\<exists>r. floatAtan_limited (Suc (Suc (Suc 0))) c x = Some r"
proof (cases "Sign x < 0")
  case True
  have "0 \<le> Sign (fNeg (fSet c x))"
  proof (cases x)
    case (Finite t)
    with True have "t < 0" by (simp split: if_splits)
    with rnd0_error[OF re, of t] have "rnd0 c t \<le> 0" by linarith
    with Finite show ?thesis by (simp add: round_to_rnd0)
  next
    case (Infinite neg)
    with True show ?thesis by (simp split: if_splits)
  qed
  from limited2_nonneg[OF re sq this] step_neg[OF True, of c] show ?thesis by auto
next
  case False
  then have "0 \<le> Sign x" by simp
  from limited2_nonneg[OF re sq this] obtain r where "floatAtan_limited (Suc (Suc 0)) c x = Some r"
    by blast
  then show ?thesis by (blast dest: floatAtan_limited_mono)
qed

text \<open>
  With an arithmetic whose rounding has a relative error of at most \<open>2\<^sup>-\<^sup>6\<close> and whose
  square root of two, where it returns, lies between 1.4 and 1.45, a budget of three
  nested self-calls lets \<open>floatAtan\<close> run to its own outcome on every input: sign
  reduction, then at most two Euler rewrites. At 8 bits and \<open>x = -191/128\<close> two nested
  self-calls do not suffice.
\<close>

lemma floatAtan_depth_sane:
  assumes "rel_error c (1 / 64)" and "sqrt_two_within c (7 / 5) (29 / 20)"
  shows "floatAtan_limited 3 c x = Some (floatAtan c x)"
proof -
  from limited3_all[OF assms, of x] obtain r where r: "floatAtan_limited (Suc (Suc (Suc 0))) c x = Some r"
    by blast
  from floatAtan_limited_sound[OF r] r show ?thesis by (simp add: numeral_3_eq_3)
qed

lemma rel_error_mono: "rel_error c e \<Longrightarrow> e \<le> e' \<Longrightarrow> rel_error c e'"
  unfolding rel_error_def
  by (meson abs_ge_zero mult_right_mono order_trans)

lemma eval_sqrt_two: "floatSqrt (float_ctx 8 40) 8 floatTwo = ret (Finite (181 / 128))"
  by code_simp

lemma eval_atan_neg: "floatAtan (float_ctx 8 40) (Finite (- (191 / 128))) = ret (Finite (- (125 / 128)))"
  by code_simp

lemma eval_limited_two: "floatAtan_limited 2 (float_ctx 8 40) (Finite (- (191 / 128))) = None"
  by code_simp

lemma floatAtan_depth_sane_at:
  "rel_error (float_ctx 8 40) (1 / 64) \<and> sqrt_two_within (float_ctx 8 40) (7 / 5) (29 / 20) \<and>
   floatAtan_limited 3 (float_ctx 8 40) (Finite (- (191 / 128))) = Some (ret (Finite (- (125 / 128)))) \<and>
   floatAtan_limited 2 (float_ctx 8 40) (Finite (- (191 / 128))) = None"
proof -
  have h1: "rel_error (float_ctx 8 40) (1 / 64)"
    by (rule rel_error_mono[OF float_ctx_rel_error]) simp
  have h2: "sqrt_two_within (float_ctx 8 40) (7 / 5) (29 / 20)"
    unfolding sqrt_two_within_def float_ctx_simps eval_sqrt_two
  proof (intro allI impI)
    fix s
    assume "ret (Finite (181 / 128)) = ret s"
    then have "s = Finite (181 / 128)" by simp
    moreover have "(7 / 5 :: rat) \<le> 181 / 128" "(181 / 128 :: rat) \<le> 29 / 20" by simp_all
    ultimately show "\<exists>t. s = Finite t \<and> 7 / 5 \<le> t \<and> t \<le> 29 / 20" by blast
  qed
  from floatAtan_depth_sane [OF h1 h2, of "Finite (- (191 / 128))"] eval_atan_neg eval_limited_two h1 h2
  show ?thesis by simp
qed


section \<open>Properties of the special command \<open>)prec\<close>\<close>

lemma config_with_config [simp]: "config (with_config f p) = f (config p)"
  by (simp add: with_config_def)

lemma tokens_with_config [simp]: "tokens (with_config f p) = tokens p"
  by (simp add: with_config_def)

lemma SetBase_restore [simp]: "SetBase (ibase c) (obase c) (SetBase i o' c) = c"
  by (simp add: SetBase_def)

lemma need_config [simp]: "config (snd (need want p)) = config p"
  by (auto simp: need_def pbind_def next_token_def preturn_def errorf_def split: list.splits)

lemma pbind_config:
  assumes "\<And>q. config (snd (m q)) = config q" and "\<And>v q. config (snd (f v q)) = config q"
  shows "config (snd (pbind m f p)) = config p"
proof (cases "m p")
  case (Pair r p')
  with assms(1)[of p] have "config p' = config p" by simp
  with Pair assms(2) show ?thesis by (cases r) (simp_all add: pbind_def)
qed

lemma nextDecimalNumber64_body_config:
  "config (snd (pbind (need [Number]) (\<lambda>tok q.
              (case Parse (config q) (Text tok) of
                 Inl err \<Rightarrow> errorf ''%s'' q
               | Inr v \<Rightarrow>
                   pbind
                     (case v of
                        IntVal num \<Rightarrow> preturn num
                      | BigIntVal num \<Rightarrow>
                          if num < 0 \<or> MaxBigInt63 < num then errorf ''value out of range: %v''
                          else preturn num
                      | _ \<Rightarrow> preturn (- 1))
                     (\<lambda>n. if n < 0 then errorf ''value must be a positive integer: %v''
                          else preturn n)
                     q)) p)) = config p"
  by (rule pbind_config)
    (auto simp: pbind_def preturn_def errorf_def split: sum.splits Value.splits)

lemma nextDecimalNumber64_config [simp]:
  "config (snd (nextDecimalNumber64 Parse p)) = config p"
proof -
  have "SetBase (ibase (config p)) (obase (config p)) (SetBase 10 (obase (config p)) (config p)) = config p"
    by simp
  then show ?thesis
    unfolding nextDecimalNumber64_def Let_def
    by (simp add: case_prod_beta nextDecimalNumber64_body_config)
qed

lemma nextDecimalNumber_config [simp]:
  "config (snd (nextDecimalNumber Parse p)) = config p"
  unfolding nextDecimalNumber_def
  by (rule pbind_config) (simp_all add: errorf_def preturn_def)

lemma need_hit:
  "tokens p = t # ts \<Longrightarrow> Type t \<in> set want \<Longrightarrow> need want p = (Inr t, p\<lparr>tokens := ts\<rparr>)"
  by (simp add: need_def pbind_def next_token_def preturn_def)

lemma print_config [simp]: "config (snd (print fmt args p)) = config p"
  by (simp add: print_def)

lemma nextDecimalNumber64_nonneg:
  "nextDecimalNumber64 Parse p = (Inr n, q) \<Longrightarrow> 0 \<le> n"
  unfolding nextDecimalNumber64_def Let_def
  by (auto simp: pbind_def preturn_def errorf_def need_def next_token_def case_prod_beta
      split: sum.splits Value.splits if_splits list.splits prod.splits)

lemma nextDecimalNumber_nonneg:
  "nextDecimalNumber Parse p = (Inr n, q) \<Longrightarrow> 0 \<le> n"
  unfolding nextDecimalNumber_def
  by (auto simp: pbind_def preturn_def errorf_def split: sum.splits if_splits prod.splits
      dest: nextDecimalNumber64_nonneg)

lemma special_prec_config:
  "config (snd (special_prec Parse p)) = config p \<or>
   (\<exists>n. 1 \<le> n \<and> n \<le> 1000000 \<and> config (snd (special_prec Parse p)) = (config p)\<lparr>floatPrec := n\<rparr>)"
proof (cases "Type (peek p) = Newline")
  case True
  then show ?thesis by (simp add: special_prec_def)
next
  case False
  obtain r q where rq: "nextDecimalNumber Parse p = (r, q)" by (cases "nextDecimalNumber Parse p")
  have cq: "config q = config p" using nextDecimalNumber_config[of Parse p] rq by simp
  show ?thesis
  proof (cases r)
    case (Inl e)
    with False rq cq show ?thesis by (simp add: special_prec_def pbind_def)
  next
    case (Inr prec)
    with rq have nn: "0 \<le> prec" by (auto dest: nextDecimalNumber_nonneg)
    show ?thesis
    proof (cases "prec = 0 \<or> 1000000 < prec")
      case True
      with False rq cq Inr show ?thesis by (simp add: special_prec_def pbind_def errorf_def)
    next
      case ok: False
      with nn have "1 \<le> nat prec" "nat prec \<le> 1000000" by arith+
      moreover have "config (snd (special_prec Parse p)) = (config p)\<lparr>floatPrec := nat prec\<rparr>"
        using False rq cq Inr ok by (simp add: special_prec_def pbind_def preturn_def)
      ultimately show ?thesis by blast
    qed
  qed
qed

lemma nextDecimalNumber_at:
  assumes "tokens p = \<lparr>Type = Number, Text = digits\<rparr> # rest"
    and "Parse (SetBase 10 (obase (config p)) (config p)) digits = Inr v"
    and "v = IntVal n \<or> v = BigIntVal n"
    and "0 \<le> n"
  shows "(\<exists>e. fst (nextDecimalNumber Parse p) = Inl e) \<or> fst (nextDecimalNumber Parse p) = Inr n"
proof -
  let ?q = "with_config (SetBase 10 (obase (config p))) p"
  have nd: "need [Number] ?q = (Inr \<lparr>Type = Number, Text = digits\<rparr>, ?q\<lparr>tokens := rest\<rparr>)"
    using assms(1) by (simp add: need_hit)
  have "(\<exists>e. fst (nextDecimalNumber64 Parse p) = Inl e) \<or> fst (nextDecimalNumber64 Parse p) = Inr n"
  proof (cases "v = BigIntVal n \<and> MaxBigInt63 < n")
    case True
    then show ?thesis
      using assms(2,4) unfolding nextDecimalNumber64_def Let_def
      by (simp add: pbind_def nd case_prod_beta errorf_def)
  next
    case False
    then show ?thesis
      using assms(2,3,4) unfolding nextDecimalNumber64_def Let_def
      by (auto simp: pbind_def nd case_prod_beta errorf_def preturn_def)
  qed
  then show ?thesis
    unfolding nextDecimalNumber_def
    by (cases "nextDecimalNumber64 Parse p") (auto simp: pbind_def errorf_def preturn_def)
qed

lemma special_prec_reject:
  assumes "tokens p = \<lparr>Type = Number, Text = digits\<rparr> # rest"
    and "Parse (SetBase 10 (obase (config p)) (config p)) digits = Inr v"
    and "v = IntVal n \<or> v = BigIntVal n"
    and "n = 0 \<or> 1000000 < n"
  shows "(\<exists>e. fst (special_prec Parse p) = Inl e) \<and> config (snd (special_prec Parse p)) = config p"
proof -
  have nl: "Type (peek p) \<noteq> Newline" using assms(1) by (simp add: peek_def)
  have nn: "0 \<le> n" using assms(4) by auto
  obtain r q where rq: "nextDecimalNumber Parse p = (r, q)" by (cases "nextDecimalNumber Parse p")
  have cq: "config q = config p" using nextDecimalNumber_config[of Parse p] rq by simp
  from nextDecimalNumber_at[where Parse = Parse and p = p, OF assms(1-3) nn] rq have "(\<exists>e. r = Inl e) \<or> r = Inr n" by simp
  then show ?thesis
    using nl rq cq assms(4) by (auto simp: special_prec_def pbind_def errorf_def)
qed


text \<open>
  C10. On input \<open>)prec ...\<close> the command leaves the configuration as it was or
  installs a float precision between 1 and 1000000, whatever follows on the line. When what
  follows is a number that reads as 0 or as more than 1000000, the command ends in an error
  and the configuration is unchanged.
\<close>

theorem special_prec_range:
  assumes "tokens p = \<lparr>Type = RightParen, Text = a\<rparr> # \<lparr>Type = ty, Text = ''prec''\<rparr> # rest"
    and "ty = Identifier \<or> ty = Op"
  shows "(config (snd (special Parse extern p)) = config p \<or>
      (\<exists>n. 1 \<le> n \<and> n \<le> 1000000 \<and>
         config (snd (special Parse extern p)) = (config p)\<lparr>floatPrec := n\<rparr>)) \<and>
    (\<forall>digits rest' v n.
       rest = \<lparr>Type = Number, Text = digits\<rparr> # rest' \<and>
       Parse (SetBase 10 (obase (config p)) (config p)) digits = Inr v \<and>
       (v = IntVal n \<or> v = BigIntVal n) \<and> (n = 0 \<or> 1000000 < n) \<longrightarrow>
       (\<exists>e. fst (special Parse extern p) = Inl e) \<and>
       config (snd (special Parse extern p)) = config p)"
proof -
  define p2 where "p2 = p\<lparr>tokens := rest\<rparr>"
  have c2: "config p2 = config p" and t2: "tokens p2 = rest" by (simp_all add: p2_def)
  have unfold: "special Parse extern p =
      pbind (special_prec Parse) (\<lambda>_. pbind (need [Newline, EOF]) (\<lambda>_. preturn ())) p2"
    using assms by (auto simp: special_def need_hit pbind_def p2_def Let_def)
  have tail: "\<And>q. config (snd (pbind (need [Newline, EOF]) (\<lambda>_. preturn ()) q)) = config q"
    by (rule pbind_config) (simp_all add: preturn_def)
  have cfg: "config (snd (special Parse extern p)) = config (snd (special_prec Parse p2))"
    unfolding unfold using tail
    by (cases "special_prec Parse p2") (auto simp: pbind_def split: sum.splits)
  have err: "\<And>e. fst (special_prec Parse p2) = Inl e \<Longrightarrow> fst (special Parse extern p) = Inl e"
    unfolding unfold by (cases "special_prec Parse p2") (auto simp: pbind_def)
  show ?thesis
  proof (intro conjI allI impI)
    show "config (snd (special Parse extern p)) = config p \<or>
      (\<exists>n. 1 \<le> n \<and> n \<le> 1000000 \<and>
         config (snd (special Parse extern p)) = (config p)\<lparr>floatPrec := n\<rparr>)"
      using special_prec_config[of Parse p2] by (simp add: cfg c2)
  next
    fix digits rs v n
    assume h: "rest = \<lparr>Type = Number, Text = digits\<rparr> # rs \<and>
       Parse (SetBase 10 (obase (config p)) (config p)) digits = Inr v \<and>
       (v = IntVal n \<or> v = BigIntVal n) \<and> (n = 0 \<or> 1000000 < n)"
    from special_prec_reject[where p = p2 and Parse = Parse and digits = digits and rest = rs and v = v and n = n] h
    have r: "(\<exists>e. fst (special_prec Parse p2) = Inl e) \<and> config (snd (special_prec Parse p2)) = config p2"
      by (simp add: t2 c2)
    then show "\<exists>e. fst (special Parse extern p) = Inl e" using err by blast
    from r show "config (snd (special Parse extern p)) = config p" by (simp add: cfg c2)
  qed
qed

theorem special_prec_range_witness:
  "(\<exists>e. fst (special parse_decimal no_extern
      \<lparr>tokens = [tok RightParen '')'', tok Identifier ''prec'', tok Number ''1000001'',
         tok Newline []], config = config0, printed = []\<rparr>) = Inl e) \<and>
   config (snd (special parse_decimal no_extern
      \<lparr>tokens = [tok RightParen '')'', tok Identifier ''prec'', tok Number ''1000001'',
         tok Newline []], config = config0, printed = []\<rparr>)) = config0"
proof -
  let ?p = "\<lparr>tokens = [tok RightParen '')'', tok Identifier ''prec'', tok Number ''1000001'',
         tok Newline []], config = config0, printed = []\<rparr>"
  have t: "tokens ?p = \<lparr>Type = RightParen, Text = '')''\<rparr> # \<lparr>Type = Identifier, Text = ''prec''\<rparr> #
      [tok Number ''1000001'', tok Newline []]"
    by (simp add: tok_def)
  have parse: "parse_decimal (SetBase 10 (obase (config ?p)) (config ?p)) ''1000001'' = Inr (IntVal 1000001)"
    by (simp add: parse_decimal_def MaxBigInt63_def)
  from special_prec_range [where Parse = parse_decimal and extern = no_extern, OF t]
  have "\<forall>digits rest' v n.
       [tok Number ''1000001'', tok Newline []] = \<lparr>Type = Number, Text = digits\<rparr> # rest' \<and>
       parse_decimal (SetBase 10 (obase (config ?p)) (config ?p)) digits = Inr v \<and>
       (v = IntVal n \<or> v = BigIntVal n) \<and> (n = 0 \<or> 1000000 < n) \<longrightarrow>
       (\<exists>e. fst (special parse_decimal no_extern ?p) = Inl e) \<and>
       config (snd (special parse_decimal no_extern ?p)) = config ?p"
    by simp
  from this [rule_format, of "''1000001''" "[tok Newline []]" "IntVal 1000001" 1000001] parse
  show ?thesis by (simp add: tok_def)
qed

section \<open>What a call leaves untouched\<close>

lemma keepsI:
  assumes "\<And>h r h'. b \<le> next_free h \<Longrightarrow> m h = Some (r, h') \<Longrightarrow>
     next_free h \<le> next_free h' \<and> (\<forall>a<b. cells h' a = cells h a) \<and> (\<forall>v. r = Inr v \<longrightarrow> Q v)"
  shows "keeps b m Q"
  using assms unfolding keeps_def by blast

lemma keepsD:
  assumes "keeps b m Q" "b \<le> next_free h" "m h = Some (r, h')"
  shows "next_free h \<le> next_free h'" "\<And>a. a < b \<Longrightarrow> cells h' a = cells h a" "\<And>v. r = Inr v \<Longrightarrow> Q v"
  using assms unfolding keeps_def by blast+

lemma keeps_bind:
  assumes m: "keeps b m Q" and k: "\<And>v. Q v \<Longrightarrow> keeps b (k v) R"
  shows "keeps b (sbind m k) R"
proof (rule keepsI)
  fix h r h'
  assume b: "b \<le> next_free h" and run: "sbind m k h = Some (r, h')"
  from run obtain r1 h1 where m1: "m h = Some (r1, h1)"
    by (cases "m h") (auto simp: sbind_def)
  note d1 = keepsD[OF m b m1]
  show "next_free h \<le> next_free h' \<and> (\<forall>a<b. cells h' a = cells h a) \<and> (\<forall>v. r = Inr v \<longrightarrow> R v)"
  proof (cases r1)
    case (Inl e)
    with run m1 have "r = Inl e" "h' = h1" by (simp_all add: sbind_def)
    with d1 show ?thesis by simp
  next
    case (Inr v)
    with run m1 have k1: "k v h1 = Some (r, h')" by (simp add: sbind_def)
    from d1(1) b have b1: "b \<le> next_free h1" by simp
    note d2 = keepsD[OF k[OF d1(3)[OF Inr]] b1 k1]
    from d1 d2 show ?thesis by auto
  qed
qed

lemma keeps_weaken: "keeps b m Q \<Longrightarrow> (\<And>v. Q v \<Longrightarrow> Q' v) \<Longrightarrow> keeps b m Q'"
  unfolding keeps_def by blast

lemma keeps_return: "Q v \<Longrightarrow> keeps b (sreturn v) Q"
  by (simp add: keeps_def sreturn_def)

lemma keeps_raise: "keeps b (sraise e) Q"
  by (simp add: keeps_def sraise_def)

lemma keeps_newF: "keeps b (newF_st c) (\<lambda>p. b \<le> p)"
  by (auto simp: keeps_def newF_st_def)

lemma keeps_state: "(\<And>s. keeps b (F s) Q) \<Longrightarrow> keeps b (\<lambda>h. F h h) Q"
  unfolding keeps_def by blast

lemma keeps_put: "b \<le> z \<Longrightarrow> keeps b (put z p v) (\<lambda>p. b \<le> p)"
  by (auto simp: keeps_def put_def)

lemma keeps_assign: "b \<le> z \<Longrightarrow> keeps b (assign z p r) (\<lambda>p. b \<le> p)"
  by (auto simp: keeps_def assign_def put_def split: option.splits sum.splits)

lemma keeps_Set: "b \<le> z \<Longrightarrow> keeps b (Set_st c z x) (\<lambda>p. b \<le> p)"
  by (auto simp: keeps_def Set_st_def put_def sreturn_def Let_def)

lemma keeps_binop: "b \<le> z \<Longrightarrow> keeps b (binop f c z x y) (\<lambda>p. b \<le> p)"
  using keeps_assign[of b z] by (auto simp: keeps_def binop_def Let_def)

lemma keeps_ops:
  assumes "b \<le> z"
  shows "keeps b (Set_st c z x) (\<lambda>p. b \<le> p)"
    and "keeps b (SetInt64_st z n) (\<lambda>p. b \<le> p)"
    and "keeps b (SetFloat64_st z q) (\<lambda>p. b \<le> p)"
    and "keeps b (Neg_st c z x) (\<lambda>p. b \<le> p)"
    and "keeps b (Abs_st c z x) (\<lambda>p. b \<le> p)"
    and "keeps b (Add_st c z x y) (\<lambda>p. b \<le> p)"
    and "keeps b (Sub_st c z x y) (\<lambda>p. b \<le> p)"
    and "keeps b (Mul_st c z x y) (\<lambda>p. b \<le> p)"
    and "keeps b (Quo_st c z x y) (\<lambda>p. b \<le> p)"
    and "keeps b (SetMantExp_st c z mant e) (\<lambda>p. b \<le> p)"
proof -
  note put = keeps_state[where F = "\<lambda>s. put z (G s) (H s)" for G H, OF keeps_put[OF assms]]
  show "keeps b (Set_st c z x) (\<lambda>p. b \<le> p)" by (rule keeps_Set[OF assms])
  show "keeps b (SetInt64_st z n) (\<lambda>p. b \<le> p)"
    using keeps_put[OF assms] by (auto simp: keeps_def SetInt64_st_def)
  show "keeps b (SetFloat64_st z q) (\<lambda>p. b \<le> p)"
    using keeps_put[OF assms] by (auto simp: keeps_def SetFloat64_st_def)
  show "keeps b (Neg_st c z x) (\<lambda>p. b \<le> p)"
    unfolding Neg_st_def by (rule keeps_bind, rule keeps_Set[OF assms], rule put)
  show "keeps b (Abs_st c z x) (\<lambda>p. b \<le> p)"
    unfolding Abs_st_def by (rule keeps_bind, rule keeps_Set[OF assms], rule put)
  show "keeps b (Add_st c z x y) (\<lambda>p. b \<le> p)"
    unfolding Add_st_def by (rule keeps_binop[OF assms])
  show "keeps b (Sub_st c z x y) (\<lambda>p. b \<le> p)"
    unfolding Sub_st_def by (rule keeps_binop[OF assms])
  show "keeps b (Mul_st c z x y) (\<lambda>p. b \<le> p)"
    unfolding Mul_st_def by (rule keeps_binop[OF assms])
  show "keeps b (Quo_st c z x y) (\<lambda>p. b \<le> p)"
    unfolding Quo_st_def by (rule keeps_binop[OF assms])
  show "keeps b (SetMantExp_st c z mant e) (\<lambda>p. b \<le> p)"
    unfolding SetMantExp_st_def by (rule keeps_bind, rule keeps_Set[OF assms], rule put)
qed

lemma keeps_MantExp: "b \<le> mant \<Longrightarrow> keeps b (MantExp_st x mant) (\<lambda>_. True)"
  by (auto simp: keeps_def MantExp_st_def split: prod.splits)

lemma keeps_terminate: "keeps b (terminate_st c loop z) (\<lambda>_. True)"
  by (auto simp: keeps_def terminate_st_def split: option.splits sum.splits)


lemma keeps_reads:
  "keeps b (Sign_st x) (\<lambda>_. True)"
  "keeps b (Cmp_st x y) (\<lambda>_. True)"
  "keeps b (newLoop_st c name x n) (\<lambda>_. True)"
  by (auto simp: keeps_def Sign_st_def Cmp_st_def newLoop_st_def)

lemma keeps_if: "(P \<Longrightarrow> keeps b m1 Q) \<Longrightarrow> (\<not> P \<Longrightarrow> keeps b m2 Q) \<Longrightarrow> keeps b (if P then m1 else m2) Q"
  by simp

lemma keeps_if_st:
  "(P \<Longrightarrow> keeps b m1 Q) \<Longrightarrow> (\<not> P \<Longrightarrow> keeps b m2 Q) \<Longrightarrow> keeps b (\<lambda>h. if P then m1 h else m2 h) Q"
  by (cases P) simp_all


lemma keeps_kept:
  "keeps b m (\<lambda>p. b \<le> p) \<longleftrightarrow> (\<forall>h y. b \<le> next_free h \<longrightarrow> m h = Some y \<longrightarrow> kept b h y)"
  by (auto simp: keeps_def kept_def)

lemmas floatSqrt_loop_st_induct =
  floatSqrt_loop_st.raw_induct
    [where xa = "((((((((c, g), x), loop), z), zSquared), num), den), h)"
     for c g x loop z zSquared num den h, unfolded prod.case]

lemma keeps_sqrt_loop:
  assumes ptr: "b \<le> z" "b \<le> zSquared" "b \<le> num" "b \<le> den"
  shows "keeps b (floatSqrt_loop_st c g x loop z zSquared num den) (\<lambda>p. b \<le> p)"
  unfolding keeps_kept
proof (intro allI impI)
  fix h y
  assume b: "b \<le> next_free h"
    and run: "floatSqrt_loop_st c g x loop z zSquared num den h = Some y"
  have "b \<le> z \<and> b \<le> zSquared \<and> b \<le> num \<and> b \<le> den \<and> b \<le> next_free h \<longrightarrow> kept b h y"
  proof (rule floatSqrt_loop_st_induct
      [where P = "\<lambda>c g x loop z zSquared num den h y.
        b \<le> z \<and> b \<le> zSquared \<and> b \<le> num \<and> b \<le> den \<and> b \<le> next_free h \<longrightarrow> kept b h y",
       OF _ run], goal_cases)
    case (1 f c g x loop z zSquared num den h y)
    show ?case
    proof (intro impI, elim conjE)
      assume p: "b \<le> z" "b \<le> zSquared" "b \<le> num" "b \<le> den" and bh: "b \<le> next_free h"
      have ih: "keeps b (f c g x lp z zSquared num den) (\<lambda>p. b \<le> p)" for lp
        unfolding keeps_kept using 1(1) p by blast
      have cont: "keeps b ((\<lambda>(stop, loop) h.
             if stop then sreturn z h
             else f c g x loop z zSquared num den h) v) (\<lambda>p. b \<le> p)" for v
      proof (cases v)
        case (Pair stop lp)
        then show ?thesis by (cases stop) (simp_all add: keeps_return p ih)
      qed
      have "keeps b (\<lambda>h. sbind (Mul_st c zSquared z z) (\<lambda>_.
           sbind (Sub_st c num zSquared x) (\<lambda>_.
           sbind (Mul_st c den (floatTwo_at g) z) (\<lambda>_.
           sbind (Quo_st c num num den) (\<lambda>_.
           sbind (Sub_st c z z num) (\<lambda>_.
           sbind (terminate_st c loop z) (\<lambda>(stop, loop) h.
             if stop then sreturn z h
             else f c g x loop z zSquared num den h)))))) h) (\<lambda>p. b \<le> p)"
        by ((rule keeps_bind, rule keeps_ops, rule p)+, rule keeps_bind, rule keeps_terminate,
            rule cont)
      with bh 1(2) show "kept b h y" unfolding keeps_kept by blast
    qed
  qed
  with ptr b show "kept b h y" by simp
qed

lemma keeps_floatSqrt: "keeps b (floatSqrt_st c g x) (\<lambda>p. b \<le> p)"
  unfolding floatSqrt_st_def
  apply (rule keeps_bind, rule keeps_reads)
  apply (rule keeps_if, rule keeps_raise)
  apply (rule keeps_if, rule keeps_newF)
  apply (rule keeps_bind, rule keeps_newF)
  apply (rule keeps_bind, rule keeps_MantExp, assumption)
  apply (rule keeps_bind, rule keeps_ops, assumption)
  apply (rule keeps_bind, rule keeps_newF)+
  apply (rule keeps_bind, rule keeps_reads)
  apply (rule keeps_sqrt_loop; assumption)
  done


lemma keeps_atan_loop:
  assumes ptr: "b \<le> n" "b \<le> tm" "b \<le> xN" "b \<le> z"
  shows "keeps b (floatAtan_loop_st c loop n two tm xN xSquared z is_plus) (\<lambda>p. b \<le> p)"
  unfolding keeps_kept
proof (intro allI impI)
  fix h y
  assume b: "b \<le> next_free h"
    and run: "floatAtan_loop_st c loop n two tm xN xSquared z is_plus h = Some y"
  have "b \<le> n \<and> b \<le> tm \<and> b \<le> xN \<and> b \<le> z \<and> b \<le> next_free h \<longrightarrow> kept b h y"
  proof (rule floatAtan_loop_st.raw_induct
      [where P = "\<lambda>c loop n two tm xN xSquared z is_plus h y.
        b \<le> n \<and> b \<le> tm \<and> b \<le> xN \<and> b \<le> z \<and> b \<le> next_free h \<longrightarrow> kept b h y",
       OF _ run], goal_cases)
    case (1 f c loop n two tm xN xSquared z is_plus h y)
    show ?case
    proof (intro impI, elim conjE)
      assume p: "b \<le> n" "b \<le> tm" "b \<le> xN" "b \<le> z" and bh: "b \<le> next_free h"
      have ih: "keeps b (f c lp n two tm xN xSquared z pl) (\<lambda>p. b \<le> p)" for lp pl
        unfolding keeps_kept using 1(1) p by blast
      have cont: "keeps b ((\<lambda>(stop, loop) h.
             if stop then sreturn z h
             else
               sbind (Add_st c n n two) (\<lambda>_.
               sbind (Mul_st c xN xN xSquared) (\<lambda>_ h.
               f c loop n two tm xN xSquared z (\<not> is_plus) h)) h) v) (\<lambda>p. b \<le> p)" for v
      proof (cases v)
        case (Pair stop lp)
        have "keeps b (sbind (Add_st c n n two) (\<lambda>_.
               sbind (Mul_st c xN xN xSquared) (\<lambda>_ h.
               f c lp n two tm xN xSquared z (\<not> is_plus) h))) (\<lambda>p. b \<le> p)"
          by ((rule keeps_bind, rule keeps_ops, rule p)+, rule ih)
        with Pair show ?thesis by (cases stop) (simp_all add: keeps_return p)
      qed
      have "keeps b (\<lambda>h. sbind (Set_st c tm xN) (\<lambda>_.
           sbind (Quo_st c tm tm n) (\<lambda>_.
           sbind (if is_plus then Add_st c z z tm else Sub_st c z z tm) (\<lambda>_.
           sbind (terminate_st c loop z) (\<lambda>(stop, loop) h.
             if stop then sreturn z h
             else
               sbind (Add_st c n n two) (\<lambda>_.
               sbind (Mul_st c xN xN xSquared) (\<lambda>_ h.
               f c loop n two tm xN xSquared z (\<not> is_plus) h)) h)))) h) (\<lambda>p. b \<le> p)"
        apply (rule keeps_bind, rule keeps_ops, rule p)+
        apply (rule keeps_bind, (rule keeps_if; (rule keeps_ops, rule p)))
        apply (rule keeps_bind, rule keeps_terminate)
        apply (rule cont)
        done
      with bh 1(2) show "kept b h y" unfolding keeps_kept by blast
    qed
  qed
  with ptr b show "kept b h y" by simp
qed

lemma keeps_atanLarge_loop:
  assumes ptr: "b \<le> n" "b \<le> tm" "b \<le> xN" "b \<le> z"
  shows "keeps b (floatAtanLarge_loop_st c g loop n tm xN xSquared z is_plus) (\<lambda>p. b \<le> p)"
  unfolding keeps_kept
proof (intro allI impI)
  fix h y
  assume b: "b \<le> next_free h"
    and run: "floatAtanLarge_loop_st c g loop n tm xN xSquared z is_plus h = Some y"
  have "b \<le> n \<and> b \<le> tm \<and> b \<le> xN \<and> b \<le> z \<and> b \<le> next_free h \<longrightarrow> kept b h y"
  proof (rule floatAtanLarge_loop_st.raw_induct
      [where P = "\<lambda>c g loop n tm xN xSquared z is_plus h y.
        b \<le> n \<and> b \<le> tm \<and> b \<le> xN \<and> b \<le> z \<and> b \<le> next_free h \<longrightarrow> kept b h y",
       OF _ run], goal_cases)
    case (1 f c g loop n tm xN xSquared z is_plus h y)
    show ?case
    proof (intro impI, elim conjE)
      assume p: "b \<le> n" "b \<le> tm" "b \<le> xN" "b \<le> z" and bh: "b \<le> next_free h"
      have ih: "keeps b (f c g lp n tm xN xSquared z pl) (\<lambda>p. b \<le> p)" for lp pl
        unfolding keeps_kept using 1(1) p by blast
      have cont: "keeps b ((\<lambda>(stop, loop) h.
             if stop then sreturn z h
             else
               sbind (Add_st c n n (floatTwo_at g)) (\<lambda>_.
               sbind (Mul_st c xN xN xSquared) (\<lambda>_ h.
               f c g loop n tm xN xSquared z (\<not> is_plus) h)) h) v) (\<lambda>p. b \<le> p)" for v
      proof (cases v)
        case (Pair stop lp)
        have "keeps b (sbind (Add_st c n n (floatTwo_at g)) (\<lambda>_.
               sbind (Mul_st c xN xN xSquared) (\<lambda>_ h.
               f c g lp n tm xN xSquared z (\<not> is_plus) h))) (\<lambda>p. b \<le> p)"
          by ((rule keeps_bind, rule keeps_ops, rule p)+, rule ih)
        with Pair show ?thesis by (cases stop) (simp_all add: keeps_return p)
      qed
      have "keeps b (\<lambda>h. sbind (Set_st c tm xN) (\<lambda>_.
           sbind (Mul_st c tm tm n) (\<lambda>_.
           sbind (Quo_st c tm (floatOne_at g) tm) (\<lambda>_.
           sbind (if is_plus then Add_st c z z tm else Sub_st c z z tm) (\<lambda>_.
           sbind (terminate_st c loop z) (\<lambda>(stop, loop) h.
             if stop then sreturn z h
             else
               sbind (Add_st c n n (floatTwo_at g)) (\<lambda>_.
               sbind (Mul_st c xN xN xSquared) (\<lambda>_ h.
               f c g loop n tm xN xSquared z (\<not> is_plus) h)) h))))) h) (\<lambda>p. b \<le> p)"
        apply (rule keeps_bind, rule keeps_ops, rule p)+
        apply (rule keeps_bind, (rule keeps_if; (rule keeps_ops, rule p)))
        apply (rule keeps_bind, rule keeps_terminate)
        apply (rule cont)
        done
      with bh 1(2) show "kept b h y" unfolding keeps_kept by blast
    qed
  qed
  with ptr b show "kept b h y" by simp
qed

lemma keeps_floatAtanLarge: "keeps b (floatAtanLarge_st c g x) (\<lambda>p. b \<le> p)"
  unfolding floatAtanLarge_st_def
  apply ((rule keeps_bind, (rule keeps_newF | (rule keeps_ops, assumption)))+)
  apply (rule keeps_bind, rule keeps_reads)
  apply (rule keeps_atanLarge_loop; assumption)
  done

lemma keeps_floatAtan_series: "keeps b (floatAtan_series_st c g x) (\<lambda>p. b \<le> p)"
  unfolding floatAtan_series_st_def
  apply ((rule keeps_bind, (rule keeps_newF | (rule keeps_ops, assumption)))+)
  apply (rule keeps_bind, rule keeps_reads)
  apply (rule keeps_atan_loop; assumption)
  done


lemmas floatAtan_st_induct =
  floatAtan_st.raw_induct [where xa = "(((c, g), x), h)" for c g x h, unfolded prod.case]

lemma keeps_floatAtan: "keeps b (floatAtan_st c g x) (\<lambda>p. b \<le> p)"
  unfolding keeps_kept
proof (intro allI impI)
  fix h y
  assume b: "b \<le> next_free h" and run: "floatAtan_st c g x h = Some y"
  have "b \<le> next_free h \<longrightarrow> kept b h y"
  proof (rule floatAtan_st_induct
      [where P = "\<lambda>c g x h y. b \<le> next_free h \<longrightarrow> kept b h y", OF _ run], goal_cases)
    case (1 f c g x h y)
    show ?case
    proof (intro impI)
      assume bh: "b \<le> next_free h"
      have ih: "keeps b (f c g x') (\<lambda>p. b \<le> p)" for x'
        unfolding keeps_kept using 1(1) by blast
      have "keeps b (\<lambda>h. sbind (Sign_st x) (\<lambda>s h.
     if s < 0 then
       sbind (newF_st c) (\<lambda>z.
       sbind (Set_st c z x) (\<lambda>_.
       sbind (Neg_st c z z) (\<lambda>z.
       sbind (\<lambda>h. f c g z h) (\<lambda>z.
       Neg_st c z z)))) h
     else
       sbind (newF_st c) (\<lambda>tmp.
       sbind (Set_st c tmp (floatOne_at g)) (\<lambda>_.
       sbind (Sub_st c tmp tmp x) (\<lambda>_.
       sbind (Abs_st c tmp tmp) (\<lambda>_.
       sbind (newF_st c) (\<lambda>half.
       sbind (SetFloat64_st half (1 / 2)) (\<lambda>_.
       sbind (Cmp_st tmp half) (\<lambda>cmp h.
       if cmp < 0 then
         sbind (newF_st c) (\<lambda>z.
         sbind (Set_st c z (floatPi_at g)) (\<lambda>_.
         sbind (newF_st c) (\<lambda>eight.
         sbind (SetInt64_st eight 8) (\<lambda>_.
         sbind (Quo_st c z z eight) (\<lambda>_.
         sbind (floatSqrt_st c g (floatTwo_at g)) (\<lambda>y.
         sbind (Sub_st c y y (floatOne_at g)) (\<lambda>_.
         sbind (newF_st c) (\<lambda>num.
         sbind (Set_st c num x) (\<lambda>_.
         sbind (Sub_st c num num y) (\<lambda>_.
         sbind (newF_st c) (\<lambda>den.
         sbind (Set_st c den x) (\<lambda>_.
         sbind (Mul_st c den den y) (\<lambda>den.
         sbind (Add_st c den den (floatOne_at g)) (\<lambda>den.
         sbind (Quo_st c num num den) (\<lambda>q.
         sbind (\<lambda>h. f c g q h) (\<lambda>r.
         Add_st c z z r)))))))))))))))) h
       else
         sbind (Cmp_st x (floatOne_at g)) (\<lambda>cmp.
         if cmp > 0 then floatAtanLarge_st c g x
         else floatAtan_series_st c g x) h))))))) h) h) (\<lambda>p. b \<le> p)"
        apply (rule keeps_bind, rule keeps_reads)
        apply (rule keeps_if_st)
         apply ((rule keeps_bind, (rule keeps_newF | rule ih | (rule keeps_ops, assumption)))+)
         apply (rule keeps_ops, assumption)
        apply ((rule keeps_bind, (rule keeps_newF | (rule keeps_ops, assumption)))+)
        apply (rule keeps_bind, rule keeps_reads)
        apply (rule keeps_if_st)
         apply ((rule keeps_bind,
            (rule keeps_newF | rule ih | rule keeps_floatSqrt | (rule keeps_ops, assumption)))+)
         apply (rule keeps_ops, assumption)
        apply (rule keeps_bind, rule keeps_reads)
        apply (rule keeps_if, rule keeps_floatAtanLarge, rule keeps_floatAtan_series)
        done
      with bh 1(2) show "kept b h y" unfolding keeps_kept by blast
    qed
  qed
  with b show "kept b h y" by simp
qed

lemma keeps_floatAsin: "keeps b (floatAsin_st c g x) (\<lambda>p. b \<le> p)"
  unfolding floatAsin_st_def
  apply (rule keeps_bind, rule keeps_reads)
  apply (rule keeps_if)
   apply ((rule keeps_bind, (rule keeps_newF | (rule keeps_ops, assumption)))+)
   apply (rule keeps_ops, assumption)
  apply (rule keeps_bind, rule keeps_reads)
  apply (rule keeps_if)
   apply ((rule keeps_bind, (rule keeps_newF | (rule keeps_ops, assumption)))+)
   apply (rule keeps_ops, assumption)
  apply ((rule keeps_bind, (rule keeps_newF | rule keeps_floatSqrt | (rule keeps_ops, assumption)))+)
  apply (rule keeps_floatAtan)
  done

lemma keeps_floatAcos: "keeps b (floatAcos_st c g x) (\<lambda>p. b \<le> p)"
  unfolding floatAcos_st_def
  apply ((rule keeps_bind, (rule keeps_newF | rule keeps_floatAsin | (rule keeps_ops, assumption)))+)
  apply (rule keeps_ops, assumption)
  done

lemma keeps_floatSelf: "keeps b (floatSelf_st c v) (\<lambda>_. True)"
  unfolding floatSelf_st_def
  by (cases v)
    (auto intro!: keeps_return keeps_bind[OF keeps_newF] keeps_weaken[OF keeps_put])

lemma keeps_shrink: "keeps b (shrink_st r) (\<lambda>v. \<forall>p. v = BigFloatVal p \<longrightarrow> p = r)"
  by (auto simp: keeps_def shrink_st_def split: bigfloat.splits)

lemma keeps_evalFloatFunc:
  assumes "\<And>x. keeps b (fn x) (\<lambda>p. b \<le> p)"
  shows "keeps b (evalFloatFunc c v fn) (\<lambda>res. \<forall>p. res = BigFloatVal p \<longrightarrow> b \<le> p)"
  unfolding evalFloatFunc_def
  apply (rule keeps_bind, rule keeps_floatSelf)
  apply (rule keeps_bind, rule assms)
  apply (rule keeps_weaken, rule keeps_shrink)
  apply blast
  done



text \<open>
  C9. The adapter does not change the value it is given. Whenever \<open>evalFloatFunc\<close> run on
  \<open>sqrt\<close>, \<open>asin\<close>, \<open>acos\<close> or \<open>atan\<close> returns or panics, every float that existed before
  the call holds what it held, the float of the argument and the floats of the package
  among them, and a float in the result is one that was allocated during the call.
\<close>

theorem evalFloatFunc_frame:
  assumes "fn \<in> {floatSqrt_st c g, floatAsin_st c g, floatAcos_st c g, floatAtan_st c g}"
    and "evalFloatFunc c v fn h = Some (r, h')"
  shows "(\<forall>a<next_free h. cells h' a = cells h a) \<and>
    (allocated h v \<longrightarrow> float_of h' v = float_of h v) \<and>
    (\<forall>p. r = Inr (BigFloatVal p) \<longrightarrow> next_free h \<le> p)"
proof -
  have fn: "keeps (next_free h) (fn x) (\<lambda>p. next_free h \<le> p)" for x
    using assms(1) keeps_floatSqrt keeps_floatAsin keeps_floatAcos keeps_floatAtan by auto
  note k = keepsD[OF keeps_evalFloatFunc[of "next_free h" fn c v, OF fn] order_refl assms(2)]
  have same: "\<forall>a<next_free h. cells h' a = cells h a" using k(2) by blast
  moreover have "allocated h v \<longrightarrow> float_of h' v = float_of h v"
    using same by (cases v) (simp_all add: allocated_def float_of_def)
  moreover have "\<forall>p. r = Inr (BigFloatVal p) \<longrightarrow> next_free h \<le> p" using k(3) by blast
  ultimately show ?thesis by blast
qed

lemma eval_sqrt_st:
  "map_option fst (evalFloatFunc (float_ctx 8 40) (BigFloatVal 4)
     (floatSqrt_st (float_ctx 8 40) globals0)
     (store0 (float_ctx 8 40) \<lparr>fprec = 12, fval = Finite (2049 / 1024)\<rparr>)) =
   Some (Inr (BigFloatVal 5))"
  by code_simp

theorem evalFloatFunc_frame_witness:
  "\<exists>h'. evalFloatFunc (float_ctx 8 40) (BigFloatVal 4) (floatSqrt_st (float_ctx 8 40) globals0)
       (store0 (float_ctx 8 40) \<lparr>fprec = 12, fval = Finite (2049 / 1024)\<rparr>) =
       Some (Inr (BigFloatVal 5), h') \<and>
     (\<forall>a<5. cells h' a =
        cells (store0 (float_ctx 8 40) \<lparr>fprec = 12, fval = Finite (2049 / 1024)\<rparr>) a) \<and>
     float_of h' (BigFloatVal 4) = Some \<lparr>fprec = 12, fval = Finite (2049 / 1024)\<rparr>"
proof -
  let ?c = "float_ctx 8 40"
  let ?h = "store0 ?c \<lparr>fprec = 12, fval = Finite (2049 / 1024)\<rparr>"
  from eval_sqrt_st obtain h' where
    run: "evalFloatFunc ?c (BigFloatVal 4) (floatSqrt_st ?c globals0) ?h = Some (Inr (BigFloatVal 5), h')"
    by (auto simp: map_option_case split: option.splits)
  have fn: "floatSqrt_st ?c globals0 \<in>
      {floatSqrt_st ?c globals0, floatAsin_st ?c globals0, floatAcos_st ?c globals0,
       floatAtan_st ?c globals0}"
    by simp
  have al: "allocated ?h (BigFloatVal 4)" by (simp add: allocated_def store0_def)
  from evalFloatFunc_frame [OF fn run] al
  have "(\<forall>a<next_free ?h. cells h' a = cells ?h a) \<and>
      float_of h' (BigFloatVal 4) = float_of ?h (BigFloatVal 4)"
    by blast
  then have "(\<forall>a<5. cells h' a = cells ?h a) \<and>
      float_of h' (BigFloatVal 4) = Some \<lparr>fprec = 12, fval = Finite (2049 / 1024)\<rparr>"
    by (simp add: store0_def float_of_def)
  with run show ?thesis by blast
qed

end
